theory Spec2Isabelle
  imports Complex_Main "HOL-Library.AList" "HOL-Library.Sublist"
begin

section \<open>The process manager of mrmd (\<^verbatim>\<open>src/mrmd/processes.py\<close>)\<close>

text \<open>
  \<^verbatim>\<open>ProcessManager\<close> keeps three dictionaries keyed by the process name: the
  subprocess objects, the output buffers (a \<^verbatim>\<open>deque(maxlen=1000)\<close> each) and the
  asyncio tasks that run \<^verbatim>\<open>_read_output\<close>.  Python dictionaries keep insertion
  order, so each one is an association list; \<^verbatim>\<open>d[k] = v\<close> is \<open>AList.update\<close>
  (replace in place, else append) and \<^verbatim>\<open>del d[k]\<close> is \<open>AList.delete\<close>, raising
  \<^verbatim>\<open>KeyError\<close> for a missing key.

  The manager runs on one asyncio event loop.  A method is a function from the state
  before to the state after; what the operating system and the child process do (whether
  a spawn works, whether a signal finds its process, whether the wait times out, what the
  child prints) is an argument of the function.  The reader task of a process is advanced
  by \<open>read_output\<close>, with the lines the child has printed since.  \<^verbatim>\<open>stop\<close> is
  suspended at its \<^verbatim>\<open>await\<close>s, where the event loop runs whatever else is ready:
  \<open>stop\<close> is the call during which nothing else runs, \<open>stop_interleaved\<close> takes the
  calls that run at each \<^verbatim>\<open>await\<close>.
\<close>

subsection \<open>Exceptions\<close>

datatype exn =
    RuntimeError string
  | ImportError
  | TimeoutExpired
  | FileNotFoundError
  | PermissionError
  | OSError string
  | ProcessLookupError
  | TimeoutError
  | CancelledError
  | KeyError string
  | CallbackError string

text \<open>
  \<^verbatim>\<open>except Exception\<close> catches every class above but \<^verbatim>\<open>asyncio.CancelledError\<close>,
  which derives from \<^verbatim>\<open>BaseException\<close>.
\<close>

fun is_Exception :: "exn \<Rightarrow> bool" where
  "is_Exception CancelledError = False"
| "is_Exception _ = True"

definition node_not_found :: string where
  "node_not_found =
     ''Node.js not found. Install nodejs-bin: pip install nodejs-bin'' @ [CHR 0x0A] @
     ''Or install Node.js from https://nodejs.org''"

text \<open>\<^verbatim>\<open>str(e)\<close>, as the f-strings of the log messages render an exception.\<close>

fun exn_str :: "exn \<Rightarrow> string" where
  "exn_str (RuntimeError m) = m"
| "exn_str ImportError = ''No module named nodejs''"
| "exn_str TimeoutExpired = ''Command timed out after 5 seconds''"
| "exn_str FileNotFoundError = ''No such file or directory''"
| "exn_str PermissionError = ''Permission denied''"
| "exn_str (OSError m) = m"
| "exn_str ProcessLookupError = []"
| "exn_str TimeoutError = []"
| "exn_str CancelledError = []"
| "exn_str (KeyError k) = [CHR 0x27] @ k @ [CHR 0x27]"
| "exn_str (CallbackError m) = m"

subsection \<open>Data\<close>

type_synonym name = string
type_synonym path = "string list"

text \<open>An \<^verbatim>\<open>asyncio.subprocess.Process\<close>: its pid and its \<^verbatim>\<open>returncode\<close>, which is
  \<^verbatim>\<open>None\<close> until the process has exited.\<close>

record process =
  pid :: nat
  returncode :: "int option"

text \<open>\<^verbatim>\<open>collections.deque(maxlen=n)\<close>.\<close>

record deque =
  items :: "string list"
  maxlen :: nat

definition new_deque :: "nat \<Rightarrow> deque" where
  "new_deque n = \<lparr>items = [], maxlen = n\<rparr>"

text \<open>\<^verbatim>\<open>deque.append\<close>: the new element goes to the right, and a deque that is over
  its \<^verbatim>\<open>maxlen\<close> afterwards drops its leftmost element.\<close>

definition deque_append :: "deque \<Rightarrow> string \<Rightarrow> deque" where
  "deque_append d x =
     (let ys = items d @ [x]
      in d\<lparr>items := (if length ys > maxlen d then tl ys else ys)\<rparr>)"

text \<open>
  The per-line callback: it returns normally (\<open>None\<close>) or raises.  A reader task holds
  the callback it was created with and is either still in its loop or done.
\<close>

type_synonym callback = "string \<Rightarrow> exn option"

datatype task_status = Active | Done

record task =
  on_line :: "callback option"
  status :: task_status

datatype level = INFO | WARNING | ERROR

text \<open>
  What the manager does to the outside, in order: log records, calls to
  \<^verbatim>\<open>asyncio.create_subprocess_exec\<close>, signals and waits on a pid, callback
  invocations and task cancellations.
\<close>

datatype effect =
    Log level string
  | Exec "string list" "path option" "(string \<times> string) list"
  | Terminate nat
  | WaitFor nat real
  | Kill nat
  | Wait nat
  | Callback name string
  | Cancel name

record manager =
  processes :: "(name \<times> process) list"
  output_buffers :: "(name \<times> deque) list"
  output_tasks :: "(name \<times> task) list"
  max_output_lines :: nat
  effects :: "effect list"

text \<open>\<^verbatim>\<open>ProcessManager.__init__\<close>\<close>

definition init :: manager where
  "init = \<lparr>processes = [], output_buffers = [], output_tasks = [],
           max_output_lines = 1000, effects = []\<rparr>"

subsection \<open>Dictionaries\<close>

definition dict_contains :: "name \<Rightarrow> (name \<times> 'v) list \<Rightarrow> bool" where
  "dict_contains k d = (map_of d k \<noteq> None)"

definition dict_get :: "(name \<times> 'v) list \<Rightarrow> name \<Rightarrow> exn + 'v" where
  "dict_get d k = (case map_of d k of None \<Rightarrow> Inl (KeyError k) | Some v \<Rightarrow> Inr v)"

definition dict_set :: "name \<Rightarrow> 'v \<Rightarrow> (name \<times> 'v) list \<Rightarrow> (name \<times> 'v) list" where
  "dict_set k v d = AList.update k v d"

definition dict_del :: "name \<Rightarrow> (name \<times> 'v) list \<Rightarrow> exn + (name \<times> 'v) list" where
  "dict_del k d = (if dict_contains k d then Inr (AList.delete k d) else Inl (KeyError k))"

definition dict_keys :: "(name \<times> 'v) list \<Rightarrow> name list" where
  "dict_keys d = map fst d"

definition logger :: "level \<Rightarrow> string \<Rightarrow> manager \<Rightarrow> manager" where
  "logger l m s = s\<lparr>effects := effects s @ [Log l m]\<rparr>"

subsection \<open>Strings\<close>

text \<open>\<^verbatim>\<open>' '.join(cmd)\<close>\<close>

fun join :: "string \<Rightarrow> string list \<Rightarrow> string" where
  "join sep [] = []"
| "join sep [x] = x"
| "join sep (x # y # ys) = x @ sep @ join sep (y # ys)"

text \<open>The decimal digits of a pid, as an f-string prints it.\<close>

fun show_nat :: "nat \<Rightarrow> string" where
  "show_nat n =
     (if n < 10 then [''0123456789'' ! n]
      else show_nat (n div 10) @ [''0123456789'' ! (n mod 10)])"

declare show_nat.simps [simp del]

text \<open>\<^verbatim>\<open>str.rstrip()\<close> removes trailing whitespace.  A character of a line stands
  for its code point; these are the code points below 256 for which \<^verbatim>\<open>str.isspace\<close>
  holds (the whitespace above 255 has no character here).\<close>

definition is_space :: "char \<Rightarrow> bool" where
  "is_space c = (c \<in> set [CHR 0x09, CHR 0x0A, CHR 0x0B, CHR 0x0C, CHR 0x0D,
                           CHR 0x1C, CHR 0x1D, CHR 0x1E, CHR 0x1F, CHR 0x20,
                           CHR 0x85, CHR 0xA0])"

definition rstrip :: "string \<Rightarrow> string" where
  "rstrip l = rev (dropWhile is_space (rev l))"

subsection \<open>The host\<close>

text \<open>
  What the methods read from the interpreter and the machine: \<^verbatim>\<open>os.environ\<close>,
  \<^verbatim>\<open>sys.platform\<close>, \<^verbatim>\<open>sys.executable\<close>, whether \<^verbatim>\<open>from nodejs import node\<close>
  works, and how \<^verbatim>\<open>subprocess.run(["node", "--version"], timeout=5)\<close> ends: with
  the exit code of node, or with an exception (\<^verbatim>\<open>TimeoutExpired\<close> after five
  seconds, \<^verbatim>\<open>FileNotFoundError\<close> without a node on the path, \<^verbatim>\<open>PermissionError\<close>
  for a node that may not be executed, ...).
\<close>

datatype probe = ProbeExit int | ProbeRaises exn

record host =
  os_environ :: "(string \<times> string) list"
  sys_platform :: string
  sys_executable :: string
  nodejs_bin :: bool
  node_version :: probe

definition import_nodejs :: "host \<Rightarrow> exn + unit" where
  "import_nodejs h = (if nodejs_bin h then Inr () else Inl ImportError)"

definition subprocess_run :: "host \<Rightarrow> exn + int" where
  "subprocess_run h =
     (case node_version h of
        ProbeExit rc \<Rightarrow> Inr rc
      | ProbeRaises e \<Rightarrow> Inl e)"

text \<open>\<^verbatim>\<open>get_node_executable\<close>: the bundled node, else the system node, else
  \<^verbatim>\<open>RuntimeError\<close>.  The first handler catches \<^verbatim>\<open>ImportError\<close>, the second
  \<^verbatim>\<open>(subprocess.TimeoutExpired, FileNotFoundError)\<close>; anything else leaves the function.\<close>

definition node_fallback :: "host \<Rightarrow> exn + string" where
  "node_fallback h =
     (case subprocess_run h of
        Inr rc \<Rightarrow> if rc = 0 then Inr ''node'' else Inl (RuntimeError node_not_found)
      | Inl TimeoutExpired \<Rightarrow> Inl (RuntimeError node_not_found)
      | Inl FileNotFoundError \<Rightarrow> Inl (RuntimeError node_not_found)
      | Inl e \<Rightarrow> Inl e)"

definition get_node_executable :: "host \<Rightarrow> exn + string" where
  "get_node_executable h =
     (case import_nodejs h of
        Inr _ \<Rightarrow> Inr ''node''
      | Inl ImportError \<Rightarrow> node_fallback h
      | Inl e \<Rightarrow> Inl e)"

text \<open>\<^verbatim>\<open>str(path)\<close>: the components joined by the separator of the platform.\<close>

definition path_str :: "host \<Rightarrow> path \<Rightarrow> string" where
  "path_str h p = join (if sys_platform h = ''win32'' then [CHR 0x5C] else ''/'') p"

text \<open>\<^verbatim>\<open>process_env = os.environ.copy(); if env: process_env.update(env)\<close>\<close>

definition merge_env ::
  "(string \<times> string) list \<Rightarrow> (string \<times> string) list option \<Rightarrow> (string \<times> string) list" where
  "merge_env base env =
     (case env of
        None \<Rightarrow> base
      | Some e \<Rightarrow> if e = [] then base else foldl (\<lambda>d (k, v). AList.update k v d) base e)"

text \<open>\<^verbatim>\<open>args or []\<close>\<close>

definition or_empty :: "string list option \<Rightarrow> string list" where
  "or_empty args = (case args of None \<Rightarrow> [] | Some a \<Rightarrow> a)"

subsection \<open>Starting a process\<close>

text \<open>
  How \<^verbatim>\<open>asyncio.create_subprocess_exec\<close> ends: with a new process, or with an
  exception of some \<^verbatim>\<open>Exception\<close> class (\<^verbatim>\<open>FileNotFoundError\<close>,
  \<^verbatim>\<open>PermissionError\<close>, ...), whose text is kept.
\<close>

datatype spawn = Spawned nat | SpawnFailed string

definition create_subprocess_exec ::
  "spawn \<Rightarrow> string list \<Rightarrow> path option \<Rightarrow> (string \<times> string) list \<Rightarrow> manager
     \<Rightarrow> exn + (process \<times> manager)" where
  "create_subprocess_exec sp cmd cwd env s =
     (let s' = s\<lparr>effects := effects s @ [Exec cmd cwd env]\<rparr>
      in case sp of
           Spawned p \<Rightarrow> Inr (\<lparr>pid = p, returncode = None\<rparr>, s')
         | SpawnFailed m \<Rightarrow> Inl (OSError m))"

text \<open>\<^verbatim>\<open>asyncio.create_task(self._read_output(name, process, on_output))\<close>\<close>

definition create_task :: "callback option \<Rightarrow> task" where
  "create_task cb = \<lparr>on_line = cb, status = Active\<rparr>"

text \<open>The log records of the start methods, in the order of the source.\<close>

definition already_running :: "name \<Rightarrow> manager \<Rightarrow> manager" where
  "already_running name s = logger WARNING (''Process '' @ name @ '' already running'') s"

definition starting :: "name \<Rightarrow> string list \<Rightarrow> manager \<Rightarrow> manager" where
  "starting name cmd s = logger INFO (''Starting '' @ name @ '': '' @ join '' '' cmd) s"

definition started :: "name \<Rightarrow> process \<Rightarrow> manager \<Rightarrow> manager" where
  "started name proc s =
     logger INFO (''Started '' @ name @ '' with PID '' @ show_nat (pid proc)) s"

definition failed_to_start :: "name \<Rightarrow> exn \<Rightarrow> manager \<Rightarrow> manager" where
  "failed_to_start name e s =
     logger ERROR (''Failed to start '' @ name @ '': '' @ exn_str e) s"

text \<open>
  The \<^verbatim>\<open>try\<close> block that ends each of the three start methods; the three copies in
  the source are the same text.  A failed spawn is caught by \<^verbatim>\<open>except Exception\<close>:
  it changes none of the three dictionaries and logs the error.
\<close>

definition spawn_and_register ::
  "spawn \<Rightarrow> string list \<Rightarrow> path option \<Rightarrow> (string \<times> string) list \<Rightarrow> name
     \<Rightarrow> callback option \<Rightarrow> manager \<Rightarrow> exn + (bool \<times> manager)" where
  "spawn_and_register sp cmd cwd env name on_output s =
     (case create_subprocess_exec sp cmd cwd env s of
        Inl e \<Rightarrow>
          if is_Exception e
          then Inr (False, failed_to_start name e (s\<lparr>effects := effects s @ [Exec cmd cwd env]\<rparr>))
          else Inl e
      | Inr (proc, s1) \<Rightarrow>
          let s2 = s1\<lparr>processes := dict_set name proc (processes s1)\<rparr>;
              s3 = s2\<lparr>output_buffers :=
                        dict_set name (new_deque (max_output_lines s2)) (output_buffers s2)\<rparr>;
              s4 = s3\<lparr>output_tasks := dict_set name (create_task on_output) (output_tasks s3)\<rparr>
          in Inr (True, started name proc s4))"

definition start_node_process ::
  "host \<Rightarrow> spawn \<Rightarrow> name \<Rightarrow> path \<Rightarrow> string list option \<Rightarrow> path option
     \<Rightarrow> (string \<times> string) list option \<Rightarrow> callback option \<Rightarrow> manager
     \<Rightarrow> exn + (bool \<times> manager)" where
  "start_node_process h sp name script_path args cwd env on_output s =
     (if dict_contains name (processes s) then Inr (False, already_running name s)
      else case get_node_executable h of
             Inl (RuntimeError m) \<Rightarrow> Inr (False, logger ERROR (exn_str (RuntimeError m)) s)
           | Inl e \<Rightarrow> Inl e
           | Inr node \<Rightarrow>
               let cmd = [node, path_str h script_path] @ or_empty args;
                   process_env = merge_env (os_environ h) env
               in spawn_and_register sp cmd cwd process_env name on_output (starting name cmd s))"

definition start_python_process ::
  "host \<Rightarrow> spawn \<Rightarrow> name \<Rightarrow> string \<Rightarrow> string list option \<Rightarrow> path option
     \<Rightarrow> (string \<times> string) list option \<Rightarrow> path option \<Rightarrow> callback option \<Rightarrow> manager
     \<Rightarrow> exn + (bool \<times> manager)" where
  "start_python_process h sp name modul args cwd env venv on_output s =
     (if dict_contains name (processes s) then Inr (False, already_running name s)
      else
        let python =
              (case venv of
                 Some v \<Rightarrow>
                   if sys_platform h = ''win32''
                   then path_str h (v @ [''Scripts'', ''python.exe''])
                   else path_str h (v @ [''bin'', ''python''])
               | None \<Rightarrow> sys_executable h);
            cmd = [python, ''-m'', modul] @ or_empty args;
            process_env = merge_env (os_environ h) env
        in spawn_and_register sp cmd cwd process_env name on_output (starting name cmd s))"

text \<open>\<^verbatim>\<open>from nodejs import npx\<close> in its \<^verbatim>\<open>try\<close>: the command is \<^verbatim>\<open>"npx"\<close>
  whether the import works or raises \<^verbatim>\<open>ImportError\<close>.\<close>

definition npx_command :: "host \<Rightarrow> exn + string" where
  "npx_command h =
     (case import_nodejs h of
        Inr _ \<Rightarrow> Inr ''npx''
      | Inl ImportError \<Rightarrow> Inr ''npx''
      | Inl e \<Rightarrow> Inl e)"

definition start_npx_process ::
  "host \<Rightarrow> spawn \<Rightarrow> name \<Rightarrow> string \<Rightarrow> string list option \<Rightarrow> path option
     \<Rightarrow> (string \<times> string) list option \<Rightarrow> callback option \<Rightarrow> manager
     \<Rightarrow> exn + (bool \<times> manager)" where
  "start_npx_process h sp name package args cwd env on_output s =
     (if dict_contains name (processes s) then Inr (False, already_running name s)
      else case npx_command h of
             Inl e \<Rightarrow> Inl e
           | Inr npx_cmd \<Rightarrow>
               let cmd = [npx_cmd, package] @ or_empty args;
                   process_env = merge_env (os_environ h) env
               in spawn_and_register sp cmd cwd process_env name on_output (starting name cmd s))"

subsection \<open>Reading the output\<close>

text \<open>
  One \<^verbatim>\<open>await process.stdout.readline()\<close> of the reader task: it returns the next
  line (already decoded here; decoding with \<^verbatim>\<open>errors="replace"\<close> never fails and
  gives the empty string for the empty bytes only), the empty string at the end of the
  stream, or it raises: \<^verbatim>\<open>CancelledError\<close> when the task is cancelled while it
  waits, \<^verbatim>\<open>ValueError\<close> and the like when the stream breaks.
\<close>

datatype reading = Read string | ReadRaises exn

text \<open>The two handlers around the loop of \<^verbatim>\<open>_read_output\<close>.  The result says
  whether the coroutine has returned.\<close>

definition error_reading :: "name \<Rightarrow> exn \<Rightarrow> manager \<Rightarrow> manager" where
  "error_reading name e s =
     logger ERROR (''Error reading output from '' @ name @ '': '' @ exn_str e) s"

definition read_handler :: "name \<Rightarrow> exn \<Rightarrow> manager \<Rightarrow> exn + (bool \<times> manager)" where
  "read_handler name e s =
     (if e = CancelledError then Inr (True, s)
      else if is_Exception e then Inr (True, error_reading name e s)
      else Inl e)"

text \<open>
  The loop of \<^verbatim>\<open>_read_output\<close> over the next readings of the stream.  When the
  readings run out the coroutine is suspended in \<^verbatim>\<open>readline\<close> and has not returned
  (\<open>False\<close>).
\<close>

fun read_loop ::
  "name \<Rightarrow> callback option \<Rightarrow> reading list \<Rightarrow> manager \<Rightarrow> exn + (bool \<times> manager)" where
  "read_loop name cb [] s = Inr (False, s)"
| "read_loop name cb (ReadRaises e # rs) s = read_handler name e s"
| "read_loop name cb (Read line # rs) s =
     (if line = [] then Inr (True, s)
      else
        (let line_str = rstrip line
         in (case dict_get (output_buffers s) name of
               Inl e \<Rightarrow> read_handler name e s
             | Inr buffer \<Rightarrow>
                 (let s1 = s\<lparr>output_buffers :=
                             dict_set name (deque_append buffer line_str) (output_buffers s)\<rparr>
                  in (case cb of
                        None \<Rightarrow> read_loop name cb rs s1
                      | Some f \<Rightarrow>
                          (let s2 = s1\<lparr>effects := effects s1 @ [Callback name line_str]\<rparr>
                           in (case f line_str of
                                 None \<Rightarrow> read_loop name cb rs s2
                               | Some e \<Rightarrow> read_handler name e s2)))))))"

text \<open>
  The event loop runs the reader task registered under \<open>name\<close> over the given
  readings.  A task that is done, or a name without a task, reads nothing.
\<close>

definition read_output :: "name \<Rightarrow> reading list \<Rightarrow> manager \<Rightarrow> manager" where
  "read_output name rs s =
     (case map_of (output_tasks s) name of
        None \<Rightarrow> s
      | Some t \<Rightarrow>
          (if status t = Done then s
           else (case read_loop name (on_line t) rs s of
                   Inr (finished, s') \<Rightarrow>
                     (if finished
                      then s'\<lparr>output_tasks :=
                                dict_set name (t\<lparr>status := Done\<rparr>) (output_tasks s')\<rparr>
                      else s')
                 | Inl e \<Rightarrow>
                     s\<lparr>output_tasks := dict_set name (t\<lparr>status := Done\<rparr>) (output_tasks s)\<rparr>)))"

subsection \<open>Queries\<close>

definition is_running :: "manager \<Rightarrow> name \<Rightarrow> bool" where
  "is_running s name =
     (case map_of (processes s) name of
        None \<Rightarrow> False
      | Some p \<Rightarrow> returncode p = None)"

text \<open>
  \<^verbatim>\<open>xs[i:]\<close> of Python: a negative start counts from the end, and a start beyond
  either end is clamped.
\<close>

definition slice_from :: "int \<Rightarrow> 'a list \<Rightarrow> 'a list" where
  "slice_from i xs =
     (if i < 0 then drop (nat (int (length xs) + i)) xs else drop (nat i) xs)"

text \<open>\<^verbatim>\<open>get_output\<close>: \<^verbatim>\<open>list(buffer)[-lines:]\<close>\<close>

definition get_output :: "manager \<Rightarrow> name \<Rightarrow> int \<Rightarrow> string list" where
  "get_output s name lines =
     (case map_of (output_buffers s) name of
        None \<Rightarrow> []
      | Some buffer \<Rightarrow> slice_from (- lines) (items buffer))"

record status_entry =
  running :: bool
  pid_field :: "nat option"
  returncode_field :: "int option"

definition get_status :: "manager \<Rightarrow> (name \<times> status_entry) list" where
  "get_status s =
     map (\<lambda>(name, proc).
            (name, \<lparr>running = is_running s name,
                    pid_field = (if returncode proc = None then Some (pid proc) else None),
                    returncode_field = returncode proc\<rparr>))
         (processes s)"

subsection \<open>Stopping\<close>

text \<open>
  What the operating system answers during one \<^verbatim>\<open>stop\<close>: whether
  \<^verbatim>\<open>process.terminate()\<close> and \<^verbatim>\<open>process.kill()\<close> find the process or raise
  \<^verbatim>\<open>ProcessLookupError\<close>, and whether the process exits within the timeout of
  \<^verbatim>\<open>asyncio.wait_for(process.wait(), timeout)\<close>.  The wait after \<^verbatim>\<open>kill\<close> has
  no timeout and is taken to return: a killed process is reaped.
\<close>

datatype signalled = Delivered | Vanished
datatype waited = Exited | TimedOut

record stop_env =
  on_terminate :: signalled
  on_wait_for :: waited
  on_kill :: signalled

definition terminate :: "stop_env \<Rightarrow> process \<Rightarrow> manager \<Rightarrow> exn + manager" where
  "terminate env p s =
     (case on_terminate env of
        Delivered \<Rightarrow> Inr (s\<lparr>effects := effects s @ [Terminate (pid p)]\<rparr>)
      | Vanished \<Rightarrow> Inl ProcessLookupError)"

definition wait_for :: "stop_env \<Rightarrow> process \<Rightarrow> real \<Rightarrow> manager \<Rightarrow> exn + manager" where
  "wait_for env p timeout s =
     (let s' = s\<lparr>effects := effects s @ [WaitFor (pid p) timeout]\<rparr>
      in case on_wait_for env of
           Exited \<Rightarrow> Inr s'
         | TimedOut \<Rightarrow> Inl TimeoutError)"

text \<open>\<^verbatim>\<open>process.kill(); await process.wait()\<close>\<close>

definition kill_and_wait :: "stop_env \<Rightarrow> process \<Rightarrow> manager \<Rightarrow> exn + manager" where
  "kill_and_wait env p s =
     (case on_kill env of
        Delivered \<Rightarrow> Inr (s\<lparr>effects := effects s @ [Kill (pid p), Wait (pid p)]\<rparr>)
      | Vanished \<Rightarrow> Inl ProcessLookupError)"

text \<open>The log records of \<^verbatim>\<open>stop\<close>.\<close>

definition stopping :: "name \<Rightarrow> process \<Rightarrow> manager \<Rightarrow> manager" where
  "stopping name proc s =
     logger INFO (''Stopping '' @ name @ '' (PID '' @ show_nat (pid proc) @ '')'') s"

definition not_graceful :: "name \<Rightarrow> manager \<Rightarrow> manager" where
  "not_graceful name s =
     logger WARNING
       (name @ '' didn'' @ [CHR 0x27] @ ''t stop gracefully, sending SIGKILL'') s"

definition stopped :: "name \<Rightarrow> manager \<Rightarrow> manager" where
  "stopped name s = logger INFO (''Stopped '' @ name) s"

text \<open>The \<^verbatim>\<open>try\<close> around the graceful wait, with the forced kill in its handler.\<close>

definition wait_or_kill :: "name \<Rightarrow> stop_env \<Rightarrow> process \<Rightarrow> real \<Rightarrow> manager \<Rightarrow> exn + manager" where
  "wait_or_kill name env p timeout s =
     (case wait_for env p timeout s of
        Inr s1 \<Rightarrow> Inr s1
      | Inl TimeoutError \<Rightarrow>
          (let s1 = not_graceful name (s\<lparr>effects := effects s @ [WaitFor (pid p) timeout]\<rparr>)
           in case kill_and_wait env p s1 of
                Inr s2 \<Rightarrow> Inr s2
              | Inl ProcessLookupError \<Rightarrow> Inr s1
              | Inl e \<Rightarrow> Inl e)
      | Inl e \<Rightarrow> Inl e)"

text \<open>
  \<^verbatim>\<open>task.cancel()\<close> followed by \<^verbatim>\<open>await task\<close>: a task that is still reading
  gets \<^verbatim>\<open>CancelledError\<close> at its \<^verbatim>\<open>readline\<close>, a task that is done is left alone.
  \<^verbatim>\<open>stop\<close> passes over a \<^verbatim>\<open>CancelledError\<close> of the awaited task.
\<close>

definition cancel_and_await :: "name \<Rightarrow> manager \<Rightarrow> manager" where
  "cancel_and_await name s =
     read_output name [ReadRaises CancelledError] (s\<lparr>effects := effects s @ [Cancel name]\<rparr>)"

text \<open>The block under \<^verbatim>\<open># Cancel output reader\<close>.\<close>

definition cancel_output_reader :: "name \<Rightarrow> manager \<Rightarrow> exn + manager" where
  "cancel_output_reader name s =
     (if dict_contains name (output_tasks s)
      then (let s1 = cancel_and_await name s
            in case dict_del name (output_tasks s1) of
                 Inl e \<Rightarrow> Inl e
               | Inr d \<Rightarrow> Inr (s1\<lparr>output_tasks := d\<rparr>))
      else Inr s)"

definition del_process :: "name \<Rightarrow> manager \<Rightarrow> exn + manager" where
  "del_process name s =
     (case dict_del name (processes s) of
        Inl e \<Rightarrow> Inl e
      | Inr d \<Rightarrow> Inr (s\<lparr>processes := d\<rparr>))"

definition stop :: "name \<Rightarrow> real \<Rightarrow> stop_env \<Rightarrow> manager \<Rightarrow> exn + (bool \<times> manager)" where
  "stop name timeout env s =
     (if \<not> dict_contains name (processes s) then Inr (True, s)
      else
        (case dict_get (processes s) name of
           Inl e \<Rightarrow> Inl e
         | Inr proc \<Rightarrow>
             (if returncode proc \<noteq> None
              then (case del_process name s of Inl e \<Rightarrow> Inl e | Inr s' \<Rightarrow> Inr (True, s'))
              else
                (let s1 = stopping name proc s
                 in (case terminate env proc s1 of
                       Inl ProcessLookupError \<Rightarrow>
                         (case del_process name s1 of
                            Inl e \<Rightarrow> Inl e
                          | Inr s' \<Rightarrow> Inr (True, s'))
                     | Inl e \<Rightarrow> Inl e
                     | Inr s2 \<Rightarrow>
                         (case wait_or_kill name env proc timeout s2 of
                            Inl e \<Rightarrow> Inl e
                          | Inr s3 \<Rightarrow>
                              (case cancel_output_reader name s3 of
                                 Inl e \<Rightarrow> Inl e
                               | Inr s4 \<Rightarrow>
                                   (case del_process name s4 of
                                      Inl e \<Rightarrow> Inl e
                                    | Inr s5 \<Rightarrow> Inr (True, stopped name s5)))))))))"

text \<open>\<^verbatim>\<open>stop_all\<close>: the names are listed first, then stopped one after the other; each
  \<^verbatim>\<open>stop\<close> gets the answers of the operating system for its own process.\<close>

fun stop_each :: "name list \<Rightarrow> real \<Rightarrow> (name \<Rightarrow> stop_env) \<Rightarrow> manager \<Rightarrow> exn + manager" where
  "stop_each [] timeout env s = Inr s"
| "stop_each (name # names) timeout env s =
     (case stop name timeout (env name) s of
        Inl e \<Rightarrow> Inl e
      | Inr (_, s') \<Rightarrow> stop_each names timeout env s')"

definition stop_all :: "real \<Rightarrow> (name \<Rightarrow> stop_env) \<Rightarrow> manager \<Rightarrow> exn + manager" where
  "stop_all timeout env s = stop_each (dict_keys (processes s)) timeout env s"

subsection \<open>Histories of a manager\<close>

text \<open>
  The child of \<open>name\<close> exits by itself with code \<open>rc\<close>: its process object gets a
  \<^verbatim>\<open>returncode\<close>.  Nothing else changes; the entry stays in the registry.
\<close>

definition process_exits :: "name \<Rightarrow> int \<Rightarrow> manager \<Rightarrow> manager" where
  "process_exits name rc s =
     (case map_of (processes s) name of
        None \<Rightarrow> s
      | Some p \<Rightarrow>
          (if returncode p = None
           then s\<lparr>processes := dict_set name (p\<lparr>returncode := Some rc\<rparr>) (processes s)\<rparr>
           else s))"

text \<open>
  Everything that can happen to a manager: a call of one of its methods with the
  answers of the outside, a run of a reader task, the exit of a child.
\<close>

datatype call =
    StartNode host spawn name path "string list option" "path option"
      "(string \<times> string) list option" "callback option"
  | StartPython host spawn name string "string list option" "path option"
      "(string \<times> string) list option" "path option" "callback option"
  | StartNpx host spawn name string "string list option" "path option"
      "(string \<times> string) list option" "callback option"
  | Stop name real stop_env
  | StopAll real "name \<Rightarrow> stop_env"
  | ReadOutput name "reading list"
  | Exits name int

text \<open>The state a method call leaves.  Of the calls below only
  \<^verbatim>\<open>start_node_process\<close> can raise, out of \<^verbatim>\<open>get_node_executable\<close> and before it
  has changed anything: it leaves the state it found.\<close>

definition state_after :: "exn + (bool \<times> manager) \<Rightarrow> manager \<Rightarrow> manager" where
  "state_after r s = (case r of Inr (_, s') \<Rightarrow> s' | Inl _ \<Rightarrow> s)"

fun exec :: "call \<Rightarrow> manager \<Rightarrow> manager" where
  "exec (StartNode h sp n script_path args cwd env cb) s =
     state_after (start_node_process h sp n script_path args cwd env cb s) s"
| "exec (StartPython h sp n modul args cwd env venv cb) s =
     state_after (start_python_process h sp n modul args cwd env venv cb s) s"
| "exec (StartNpx h sp n package args cwd env cb) s =
     state_after (start_npx_process h sp n package args cwd env cb s) s"
| "exec (Stop n timeout env) s = state_after (stop n timeout env s) s"
| "exec (StopAll timeout env) s =
     (case stop_all timeout env s of Inr s' \<Rightarrow> s' | Inl _ \<Rightarrow> s)"
| "exec (ReadOutput n rs) s = read_output n rs s"
| "exec (Exits n rc) s = process_exits n rc s"

fun run :: "call list \<Rightarrow> manager \<Rightarrow> manager" where
  "run [] s = s"
| "run (c # cs) s = run cs (exec c s)"

text \<open>The states a manager can be in: those that some history leads to from
  \<^verbatim>\<open>ProcessManager()\<close>.\<close>

inductive reachable :: "manager \<Rightarrow> bool" where
  reachable_init: "reachable init"
| reachable_exec: "reachable s \<Longrightarrow> reachable (exec c s)"

text \<open>The calls that stop the process \<open>n\<close>.\<close>

fun stops :: "name \<Rightarrow> call \<Rightarrow> bool" where
  "stops n (Stop m _ _) = (m = n)"
| "stops n (StopAll _ _) = True"
| "stops n _ = False"

subsection \<open>Stopping while other tasks run\<close>

text \<open>
  \<^verbatim>\<open>stop\<close> is suspended three times: in \<^verbatim>\<open>await asyncio.wait_for(process.wait(),
  timeout)\<close>, in \<^verbatim>\<open>await process.wait()\<close> after the kill, and in
  \<^verbatim>\<open>await self._output_tasks[name]\<close> after the cancellation.  While it is suspended
  the event loop runs what else is ready: the reader tasks (a child may print when it is
  signalled), other calls of the manager, the exit of a child.  An interleaving gives the
  calls that run at each of the three places.
\<close>

record interleaving =
  during_wait_for :: "call list"
  during_kill_wait :: "call list"
  during_await_task :: "call list"

definition nothing_else :: interleaving where
  "nothing_else = \<lparr>during_wait_for = [], during_kill_wait = [], during_await_task = []\<rparr>"

text \<open>The wait for the graceful exit and the forced kill, with the state in which each
  exception is raised.\<close>

definition wait_for_interleaved ::
  "stop_env \<Rightarrow> call list \<Rightarrow> process \<Rightarrow> real \<Rightarrow> manager \<Rightarrow> exn option \<times> manager" where
  "wait_for_interleaved env cs p timeout s =
     (let s' = run cs (s\<lparr>effects := effects s @ [WaitFor (pid p) timeout]\<rparr>)
      in case on_wait_for env of
           Exited \<Rightarrow> (None, s')
         | TimedOut \<Rightarrow> (Some TimeoutError, s'))"

definition kill_and_wait_interleaved ::
  "stop_env \<Rightarrow> call list \<Rightarrow> process \<Rightarrow> manager \<Rightarrow> exn option \<times> manager" where
  "kill_and_wait_interleaved env cs p s =
     (case on_kill env of
        Delivered \<Rightarrow> (None, run cs (s\<lparr>effects := effects s @ [Kill (pid p), Wait (pid p)]\<rparr>))
      | Vanished \<Rightarrow> (Some ProcessLookupError, s))"

definition wait_or_kill_interleaved ::
  "name \<Rightarrow> stop_env \<Rightarrow> interleaving \<Rightarrow> process \<Rightarrow> real \<Rightarrow> manager \<Rightarrow> exn + manager" where
  "wait_or_kill_interleaved name env m p timeout s =
     (case wait_for_interleaved env (during_wait_for m) p timeout s of
        (None, s1) \<Rightarrow> Inr s1
      | (Some TimeoutError, s1) \<Rightarrow>
          (case kill_and_wait_interleaved env (during_kill_wait m) p (not_graceful name s1) of
             (None, s2) \<Rightarrow> Inr s2
           | (Some ProcessLookupError, s2) \<Rightarrow> Inr s2
           | (Some e, s2) \<Rightarrow> Inl e)
      | (Some e, s1) \<Rightarrow> Inl e)"

text \<open>The block under \<^verbatim>\<open># Cancel output reader\<close>: the task is cancelled, the other
  calls run while it is awaited, and then its entry is deleted.\<close>

definition cancel_output_reader_interleaved ::
  "name \<Rightarrow> call list \<Rightarrow> manager \<Rightarrow> exn + manager" where
  "cancel_output_reader_interleaved name cs s =
     (if dict_contains name (output_tasks s)
      then (let s1 = run cs (cancel_and_await name s)
            in case dict_del name (output_tasks s1) of
                 Inl e \<Rightarrow> Inl e
               | Inr d \<Rightarrow> Inr (s1\<lparr>output_tasks := d\<rparr>))
      else Inr s)"

definition stop_interleaved ::
  "name \<Rightarrow> real \<Rightarrow> stop_env \<Rightarrow> interleaving \<Rightarrow> manager \<Rightarrow> exn + (bool \<times> manager)" where
  "stop_interleaved name timeout env m s =
     (if \<not> dict_contains name (processes s) then Inr (True, s)
      else
        (case dict_get (processes s) name of
           Inl e \<Rightarrow> Inl e
         | Inr proc \<Rightarrow>
             (if returncode proc \<noteq> None
              then (case del_process name s of Inl e \<Rightarrow> Inl e | Inr s' \<Rightarrow> Inr (True, s'))
              else
                (let s1 = stopping name proc s
                 in (case terminate env proc s1 of
                       Inl ProcessLookupError \<Rightarrow>
                         (case del_process name s1 of
                            Inl e \<Rightarrow> Inl e
                          | Inr s' \<Rightarrow> Inr (True, s'))
                     | Inl e \<Rightarrow> Inl e
                     | Inr s2 \<Rightarrow>
                         (case wait_or_kill_interleaved name env m proc timeout s2 of
                            Inl e \<Rightarrow> Inl e
                          | Inr s3 \<Rightarrow>
                              (case cancel_output_reader_interleaved name
                                      (during_await_task m) s3 of
                                 Inl e \<Rightarrow> Inl e
                               | Inr s4 \<Rightarrow>
                                   (case del_process name s4 of
                                      Inl e \<Rightarrow> Inl e
                                    | Inr s5 \<Rightarrow> Inr (True, stopped name s5)))))))))"

text \<open>The calls that only run a reader task.\<close>

fun is_read :: "call \<Rightarrow> bool" where
  "is_read (ReadOutput _ _) = True"
| "is_read _ = False"

text \<open>The calls that have run by the time an interleaved stop of \<open>name\<close> cancels the
  reader: none on the paths that return early, else those of the first wait and, after a
  timeout and a delivered kill, those of the second.\<close>

definition ran_before_cancel :: "name \<Rightarrow> stop_env \<Rightarrow> interleaving \<Rightarrow> manager \<Rightarrow> call list" where
  "ran_before_cancel name env m s =
     (case map_of (processes s) name of
        None \<Rightarrow> []
      | Some proc \<Rightarrow>
          (if returncode proc \<noteq> None \<or> on_terminate env = Vanished then []
           else during_wait_for m @
                (if on_wait_for env = TimedOut \<and> on_kill env = Delivered
                 then during_kill_wait m else [])))"

subsection \<open>Auxiliary notions for the proofs\<close>

text \<open>
  The invariant of the output buffers: every buffer was created with
  \<^verbatim>\<open>maxlen=self._max_output_lines\<close>, which is 1000 and never assigned again, and
  holds no more lines than that.
\<close>

definition buffer_ok :: "deque \<Rightarrow> bool" where
  "buffer_ok d \<longleftrightarrow> maxlen d = 1000 \<and> length (items d) \<le> 1000"

definition buffers_ok :: "manager \<Rightarrow> bool" where
  "buffers_ok s \<longleftrightarrow>
     max_output_lines s = 1000 \<and> list_all (\<lambda>(n, d). buffer_ok d) (output_buffers s)"

text \<open>The reader loop touches nothing but the contents of the output buffers and the
  trace of effects.\<close>

definition same_frame :: "manager \<Rightarrow> manager \<Rightarrow> bool" where
  "same_frame s s' \<longleftrightarrow>
     processes s' = processes s \<and> output_tasks s' = output_tasks s \<and>
     max_output_lines s' = max_output_lines s \<and>
     dict_keys (output_buffers s') = dict_keys (output_buffers s) \<and>
     (buffers_ok s \<longrightarrow> buffers_ok s')"


text \<open>The calls that start a process under the name \<open>n\<close>.\<close>

fun starts :: "name \<Rightarrow> call \<Rightarrow> bool" where
  "starts n (StartNode _ _ m _ _ _ _ _) = (m = n)"
| "starts n (StartPython _ _ m _ _ _ _ _ _) = (m = n)"
| "starts n (StartNpx _ _ m _ _ _ _ _) = (m = n)"
| "starts n _ = False"

text \<open>The state after the three assignments of a successful start.\<close>

definition registered :: "name \<Rightarrow> nat \<Rightarrow> callback option \<Rightarrow> manager \<Rightarrow> manager" where
  "registered n p cb s =
     s\<lparr>processes := dict_set n \<lparr>pid = p, returncode = None\<rparr> (processes s),
       output_buffers := dict_set n (new_deque (max_output_lines s)) (output_buffers s),
       output_tasks := dict_set n (create_task cb) (output_tasks s)\<rparr>"

text \<open>What a start call under the name \<open>m\<close> can do to the registry and the
  buffers: nothing, or register a fresh entry under a name that was free.\<close>

definition start_step :: "name \<Rightarrow> manager \<Rightarrow> manager \<Rightarrow> bool" where
  "start_step m s s' \<longleftrightarrow>
     max_output_lines s' = max_output_lines s \<and>
     (processes s' = processes s \<and> output_buffers s' = output_buffers s \<or>
      \<not> dict_contains m (processes s) \<and>
      (\<exists>p. processes s' = dict_set m \<lparr>pid = p, returncode = None\<rparr> (processes s)) \<and>
      output_buffers s' = dict_set m (new_deque (max_output_lines s)) (output_buffers s))"

text \<open>No buffer of \<open>s\<close> is missing in \<open>s'\<close>; and two states that differ in the trace
  of effects at most.\<close>

definition keeps_buffers :: "manager \<Rightarrow> manager \<Rightarrow> bool" where
  "keeps_buffers s s' \<longleftrightarrow>
     (\<forall>k. dict_contains k (output_buffers s) \<longrightarrow> dict_contains k (output_buffers s'))"

definition same_but_effects :: "manager \<Rightarrow> manager \<Rightarrow> bool" where
  "same_but_effects s s' \<longleftrightarrow>
     processes s' = processes s \<and> output_buffers s' = output_buffers s \<and>
     output_tasks s' = output_tasks s \<and> max_output_lines s' = max_output_lines s"


subsection \<open>Concrete managers\<close>

text \<open>
  A Linux host without the bundled node, three ways a stop can go, and the states of a
  manager that has started \<^verbatim>\<open>mrmd-sync\<close> through \<^verbatim>\<open>npx\<close>: just started, after
  the child has printed \<^verbatim>\<open>ready\<close>, after a stop that followed, and after the child has
  exited on its own.  The callback \<open>fussy\<close> raises on the line \<^verbatim>\<open>boom\<close>.
\<close>

definition host0 :: host where
  "host0 = \<lparr>os_environ = [(''PATH'', ''/usr/bin'')], sys_platform = ''linux'',
            sys_executable = ''/usr/bin/python3'', nodejs_bin = False,
            node_version = ProbeExit 0\<rparr>"

definition graceful :: stop_env where
  "graceful = \<lparr>on_terminate = Delivered, on_wait_for = Exited, on_kill = Delivered\<rparr>"

definition vanished :: stop_env where
  "vanished = \<lparr>on_terminate = Vanished, on_wait_for = Exited, on_kill = Delivered\<rparr>"

definition start_sync :: call where
  "start_sync = StartNpx host0 (Spawned 7) ''sync'' ''mrmd-sync'' None None None None"

definition sync_started :: manager where
  "sync_started = exec start_sync init"

definition sync_ready :: manager where
  "sync_ready = read_output ''sync'' [Read (''ready'' @ [CHR 0x0A])] sync_started"

definition sync_stopped :: manager where
  "sync_stopped = state_after (stop ''sync'' 5 graceful sync_ready) sync_ready"

definition fussy :: callback where
  "fussy l = (if l = ''boom'' then Some (CallbackError ''bad line'') else None)"

definition start_fussy :: call where
  "start_fussy = StartNpx host0 (Spawned 7) ''sync'' ''mrmd-sync'' None None None (Some fussy)"

definition three_lines :: "reading list" where
  "three_lines = [Read (''ok'' @ [CHR 0x0A]), Read (''boom'' @ [CHR 0x0A]),
                  Read (''after'' @ [CHR 0x0A])]"

definition fussy_read :: manager where
  "fussy_read = run [start_fussy, ReadOutput ''sync'' three_lines] init"

definition sync_exited :: manager where
  "sync_exited = process_exits ''sync'' 0 sync_started"

text \<open>Two processes \<^verbatim>\<open>a\<close> and \<^verbatim>\<open>b\<close> started one after the other, and the manager
  that has started \<^verbatim>\<open>sync\<close> with the callback \<open>fussy\<close>.\<close>

definition start_a :: call where
  "start_a = StartNpx host0 (Spawned 11) ''a'' ''mrmd-sync'' None None None None"

definition start_b :: call where
  "start_b = StartPython host0 (Spawned 12) ''b'' ''mrmd_python.cli'' None None None None None"

definition two_started :: manager where
  "two_started = run [start_a, start_b] init"

definition fussy_started :: manager where
  "fussy_started = exec start_fussy init"

text \<open>
  What can run while a stop of \<^verbatim>\<open>sync\<close> is suspended in its first wait: the reader
  reads a last line that the child prints when it is signalled; or the child exits and a
  second stop of \<^verbatim>\<open>sync\<close> runs.  And a host whose node may not be executed: the probe
  \<^verbatim>\<open>node --version\<close> raises \<^verbatim>\<open>PermissionError\<close>.
\<close>

definition printing_on_term :: interleaving where
  "printing_on_term =
     \<lparr>during_wait_for = [ReadOutput ''sync'' [Read (''bye'' @ [CHR 0x0A])]],
      during_kill_wait = [], during_await_task = []\<rparr>"

definition overlapping_stop :: interleaving where
  "overlapping_stop =
     \<lparr>during_wait_for = [Exits ''sync'' 0, Stop ''sync'' 5 graceful],
      during_kill_wait = [], during_await_task = []\<rparr>"

definition denied :: host where
  "denied = host0\<lparr>node_version := ProbeRaises PermissionError\<rparr>"

section \<open>Basic facts\<close>

lemma is_Exception_iff: "is_Exception e \<longleftrightarrow> e \<noteq> CancelledError"
  by (cases e) simp_all

lemma logger_fields [simp]:
  "processes (logger l m s) = processes s"
  "output_buffers (logger l m s) = output_buffers s"
  "output_tasks (logger l m s) = output_tasks s"
  "max_output_lines (logger l m s) = max_output_lines s"
  "effects (logger l m s) = effects s @ [Log l m]"
  by (simp_all add: logger_def)

lemma log_frames [simp]:
  "processes (already_running n s) = processes s"
  "output_buffers (already_running n s) = output_buffers s"
  "output_tasks (already_running n s) = output_tasks s"
  "max_output_lines (already_running n s) = max_output_lines s"
  "processes (starting n cmd s) = processes s"
  "output_buffers (starting n cmd s) = output_buffers s"
  "output_tasks (starting n cmd s) = output_tasks s"
  "max_output_lines (starting n cmd s) = max_output_lines s"
  "processes (started n p s) = processes s"
  "output_buffers (started n p s) = output_buffers s"
  "output_tasks (started n p s) = output_tasks s"
  "max_output_lines (started n p s) = max_output_lines s"
  "processes (failed_to_start n e s) = processes s"
  "output_buffers (failed_to_start n e s) = output_buffers s"
  "output_tasks (failed_to_start n e s) = output_tasks s"
  "max_output_lines (failed_to_start n e s) = max_output_lines s"
  "processes (error_reading n e s) = processes s"
  "output_buffers (error_reading n e s) = output_buffers s"
  "output_tasks (error_reading n e s) = output_tasks s"
  "max_output_lines (error_reading n e s) = max_output_lines s"
  "processes (stopping n p s) = processes s"
  "output_buffers (stopping n p s) = output_buffers s"
  "output_tasks (stopping n p s) = output_tasks s"
  "max_output_lines (stopping n p s) = max_output_lines s"
  "processes (not_graceful n s) = processes s"
  "output_buffers (not_graceful n s) = output_buffers s"
  "output_tasks (not_graceful n s) = output_tasks s"
  "max_output_lines (not_graceful n s) = max_output_lines s"
  "processes (stopped n s) = processes s"
  "output_buffers (stopped n s) = output_buffers s"
  "output_tasks (stopped n s) = output_tasks s"
  "max_output_lines (stopped n s) = max_output_lines s"
  by (simp_all add: already_running_def starting_def started_def failed_to_start_def
      error_reading_def stopping_def not_graceful_def stopped_def)

lemma map_of_dict_set [simp]: "map_of (dict_set k v d) = (map_of d)(k \<mapsto> v)"
  by (simp add: dict_set_def update_conv')

lemma dict_contains_set [simp]:
  "dict_contains k (dict_set k' v d) \<longleftrightarrow> k = k' \<or> dict_contains k d"
  by (simp add: dict_contains_def)

lemma dict_contains_delete [simp]:
  "dict_contains k (AList.delete k' d) \<longleftrightarrow> k \<noteq> k' \<and> dict_contains k d"
  by (simp add: dict_contains_def delete_conv')

lemma dict_contains_keys: "dict_contains k d \<longleftrightarrow> k \<in> set (dict_keys d)"
  by (simp add: dict_contains_def dict_keys_def map_of_eq_None_iff)

lemma dict_keys_set_same:
  "dict_contains k d \<Longrightarrow> dict_keys (dict_set k v d) = dict_keys d"
  by (simp add: dict_contains_keys dict_keys_def dict_set_def update_keys)

lemma delete_dict_set [simp]: "AList.delete k (dict_set k v d) = AList.delete k d"
  by (simp add: dict_set_def delete_update_same)

lemma dict_del_Inr: "dict_contains k d \<Longrightarrow> dict_del k d = Inr (AList.delete k d)"
  by (simp add: dict_del_def)

lemma dict_get_Inr: "map_of d k = Some v \<Longrightarrow> dict_get d k = Inr v"
  by (simp add: dict_get_def)

lemma set_dict_set: "set (dict_set k v d) \<subseteq> insert (k, v) (set d)"
  unfolding dict_set_def by (induction d) auto

lemma buffer_ok_append: "buffer_ok d \<Longrightarrow> buffer_ok (deque_append d x)"
  by (auto simp: buffer_ok_def deque_append_def Let_def)

lemma buffer_ok_new [simp]: "buffer_ok (new_deque 1000)"
  by (simp add: buffer_ok_def new_deque_def)

lemma buffers_ok_lookup:
  "buffers_ok s \<Longrightarrow> map_of (output_buffers s) n = Some d \<Longrightarrow> buffer_ok d"
  by (auto simp: buffers_ok_def list_all_iff dest!: map_of_SomeD)

lemma buffers_ok_set:
  assumes "buffers_ok s" and "buffer_ok d"
  shows "buffers_ok (s\<lparr>output_buffers := dict_set n d (output_buffers s)\<rparr>)"
proof -
  have "\<forall>x \<in> set (dict_set n d (output_buffers s)). case x of (k, b) \<Rightarrow> buffer_ok b"
    using assms set_dict_set [of n d "output_buffers s"]
    by (auto simp: buffers_ok_def list_all_iff)
  then show ?thesis
    using assms(1) by (simp add: buffers_ok_def list_all_iff)
qed

lemma buffers_ok_cong:
  "output_buffers s' = output_buffers s \<Longrightarrow> max_output_lines s' = max_output_lines s \<Longrightarrow>
     buffers_ok s' = buffers_ok s"
  by (simp add: buffers_ok_def)

lemma read_handler_Inr:
  "\<exists>s'. read_handler n e s = Inr (True, s') \<and> processes s' = processes s
        \<and> output_tasks s' = output_tasks s \<and> output_buffers s' = output_buffers s
        \<and> max_output_lines s' = max_output_lines s"
  by (simp add: read_handler_def is_Exception_iff)

lemma same_frame_refl [simp]: "same_frame s s"
  by (simp add: same_frame_def)

lemma same_frame_trans: "same_frame s s1 \<Longrightarrow> same_frame s1 s2 \<Longrightarrow> same_frame s s2"
  by (simp add: same_frame_def)

lemma read_handler_frame: "\<exists>s'. read_handler n e s = Inr (True, s') \<and> same_frame s s'"
  using read_handler_Inr [of n e s] by (auto simp: same_frame_def buffers_ok_def)

lemma read_loop_frame: "\<exists>b s'. read_loop n cb rs s = Inr (b, s') \<and> same_frame s s'"
proof (induction rs arbitrary: s)
  case Nil
  then show ?case by auto
next
  case (Cons r rs)
  show ?case
  proof (cases r)
    case (ReadRaises e)
    then show ?thesis using read_handler_frame [of n e s] by auto
  next
    case (Read line)
    show ?thesis
    proof (cases "line = []")
      case True
      then show ?thesis using Read by auto
    next
      case False
      note ne = this
      show ?thesis
      proof (cases "map_of (output_buffers s) n")
        case None
        then show ?thesis
          using ne Read read_handler_frame [of n "KeyError n" s]
          by (auto simp: dict_get_def)
      next
        case (Some buffer)
        define s1 where "s1 = s\<lparr>output_buffers :=
               dict_set n (deque_append buffer (rstrip line)) (output_buffers s)\<rparr>"
        define s2 where "s2 = s1\<lparr>effects := effects s1 @ [Callback n (rstrip line)]\<rparr>"
        have c: "dict_contains n (output_buffers s)"
          using Some by (simp add: dict_contains_def)
        have "buffers_ok s \<Longrightarrow> buffers_ok s1"
          unfolding s1_def
          using Some buffers_ok_lookup buffer_ok_append buffers_ok_set by blast
        then have f1: "same_frame s s1"
          using c by (simp add: same_frame_def s1_def dict_keys_set_same)
        have "buffers_ok s2 = buffers_ok s1"
          by (rule buffers_ok_cong) (simp_all add: s2_def)
        then have f2: "same_frame s s2"
          using f1 by (simp add: same_frame_def s2_def)
        show ?thesis
        proof (cases cb)
          case None
          have "read_loop n cb (r # rs) s = read_loop n cb rs s1"
            using None Read ne Some by (simp add: dict_get_def s1_def Let_def)
          then show ?thesis
            using Cons.IH [of s1] f1 by (auto intro: same_frame_trans)
        next
          case (Some f)
          note cbf = this
          show ?thesis
          proof (cases "f (rstrip line)")
            case None
            have "read_loop n cb (r # rs) s = read_loop n cb rs s2"
              using None cbf Read ne \<open>map_of (output_buffers s) n = Some buffer\<close>
              by (simp add: dict_get_def s1_def s2_def Let_def)
            then show ?thesis
              using Cons.IH [of s2] f2 by (auto intro: same_frame_trans)
          next
            case (Some e)
            have "read_loop n cb (r # rs) s = read_handler n e s2"
              using Some cbf Read ne \<open>map_of (output_buffers s) n = Some buffer\<close>
              by (simp add: dict_get_def s1_def s2_def Let_def)
            then show ?thesis
              using read_handler_frame [of n e s2] f2 by (auto intro: same_frame_trans)
          qed
        qed
      qed
    qed
  qed
qed

lemma read_loop_cancel [simp]:
  "read_loop n cb (ReadRaises CancelledError # rs) s = Inr (True, s)"
  by (simp add: read_handler_def)

lemma read_output_frame:
  "processes (read_output n rs s) = processes s \<and>
   max_output_lines (read_output n rs s) = max_output_lines s \<and>
   dict_keys (output_buffers (read_output n rs s)) = dict_keys (output_buffers s) \<and>
   dict_keys (output_tasks (read_output n rs s)) = dict_keys (output_tasks s) \<and>
   (buffers_ok s \<longrightarrow> buffers_ok (read_output n rs s))"
proof (cases "map_of (output_tasks s) n")
  case None
  then show ?thesis by (simp add: read_output_def)
next
  case (Some t)
  then have c: "dict_contains n (output_tasks s)" by (simp add: dict_contains_def)
  obtain b s' where r: "read_loop n (on_line t) rs s = Inr (b, s')" and f: "same_frame s s'"
    using read_loop_frame by blast
  have "buffers_ok (s'\<lparr>output_tasks := d\<rparr>) = buffers_ok s'" for d
    by (rule buffers_ok_cong) simp_all
  then show ?thesis
    using Some r f c by (simp add: read_output_def same_frame_def dict_keys_set_same)
qed

lemma cancel_and_await_eq:
  "cancel_and_await n s =
     (let s1 = s\<lparr>effects := effects s @ [Cancel n]\<rparr>
      in case map_of (output_tasks s) n of
           None \<Rightarrow> s1
         | Some t \<Rightarrow> if status t = Done then s1
                     else s1\<lparr>output_tasks := dict_set n (t\<lparr>status := Done\<rparr>) (output_tasks s)\<rparr>)"
  by (simp add: cancel_and_await_def read_output_def read_handler_def Let_def split: option.splits)

lemma cancel_output_reader_Inr:
  "\<exists>s'. cancel_output_reader n s = Inr s' \<and> processes s' = processes s \<and>
        output_buffers s' = output_buffers s \<and> max_output_lines s' = max_output_lines s \<and>
        output_tasks s' = AList.delete n (output_tasks s)"
proof (cases "dict_contains n (output_tasks s)")
  case False
  then have "n \<notin> fst ` set (output_tasks s)"
    by (simp add: dict_contains_keys dict_keys_def)
  then show ?thesis using False by (simp add: cancel_output_reader_def)
next
  case True
  then obtain t where t: "map_of (output_tasks s) n = Some t"
    by (auto simp: dict_contains_def)
  show ?thesis
    using True t
    by (simp add: cancel_output_reader_def cancel_and_await_eq Let_def dict_del_Inr)
qed

lemma del_process_Inr:
  "dict_contains n (processes s) \<Longrightarrow>
     del_process n s = Inr (s\<lparr>processes := AList.delete n (processes s)\<rparr>)"
  by (simp add: del_process_def dict_del_Inr)

lemma wait_or_kill_Inr:
  "\<exists>s'. wait_or_kill n env p t s = Inr s' \<and> processes s' = processes s \<and>
        output_buffers s' = output_buffers s \<and> output_tasks s' = output_tasks s \<and>
        max_output_lines s' = max_output_lines s"
  by (cases "on_wait_for env"; cases "on_kill env")
     (simp_all add: wait_or_kill_def wait_for_def kill_and_wait_def Let_def)

lemma stop_unknown: "\<not> dict_contains n (processes s) \<Longrightarrow> stop n t env s = Inr (True, s)"
  by (simp add: stop_def)

lemma stop_Inr:
  "\<exists>s'. stop n t env s = Inr (True, s') \<and>
        processes s' = AList.delete n (processes s) \<and>
        output_buffers s' = output_buffers s \<and>
        max_output_lines s' = max_output_lines s"
proof (cases "dict_contains n (processes s)")
  case False
  then have "n \<notin> fst ` set (processes s)"
    by (simp add: dict_contains_keys dict_keys_def)
  then show ?thesis using False by (simp add: stop_def)
next
  case True
  then obtain p where p: "map_of (processes s) n = Some p"
    by (auto simp: dict_contains_def)
  show ?thesis
  proof (cases "returncode p = None")
    case False
    then show ?thesis
      using True p by (auto simp: stop_def dict_get_Inr del_process_Inr)
  next
    case rc: True
    show ?thesis
    proof (cases "on_terminate env")
      case Vanished
      then show ?thesis
        using True p rc
        by (simp add: stop_def dict_get_Inr terminate_def del_process_Inr)
    next
      case Delivered
      define s2 where "s2 = (stopping n p s)\<lparr>effects := effects (stopping n p s) @ [Terminate (pid p)]\<rparr>"
      obtain s3 where s3: "wait_or_kill n env p t s2 = Inr s3"
        and f3: "processes s3 = processes s2" "output_buffers s3 = output_buffers s2"
                "max_output_lines s3 = max_output_lines s2"
        using wait_or_kill_Inr [of n env p t s2] by blast
      obtain s4 where s4: "cancel_output_reader n s3 = Inr s4"
        and f4: "processes s4 = processes s3" "output_buffers s4 = output_buffers s3"
                "max_output_lines s4 = max_output_lines s3"
        using cancel_output_reader_Inr [of n s3] by blast
      have f2: "processes s2 = processes s" "output_buffers s2 = output_buffers s"
               "max_output_lines s2 = max_output_lines s"
        by (simp_all add: s2_def)
      have c4: "dict_contains n (processes s4)"
        using True f2 f3 f4 by simp
      have "stop n t env s = Inr (True, stopped n (s4\<lparr>processes := AList.delete n (processes s4)\<rparr>))"
        using True p rc Delivered s3 s4 c4
        by (simp add: stop_def dict_get_Inr terminate_def del_process_Inr s2_def [symmetric])
      then show ?thesis
        using f2 f3 f4 by simp
    qed
  qed
qed

lemma npx_command_eq [simp]: "npx_command h = Inr ''npx''"
  by (simp add: npx_command_def import_nodejs_def)

lemma get_node_executable_Inr:
  "get_node_executable h = Inr node \<Longrightarrow> node = ''node''"
  by (auto simp: get_node_executable_def import_nodejs_def node_fallback_def subprocess_run_def
      split: if_splits probe.splits exn.splits)

lemma start_node_process_eq:
  "start_node_process h sp n sc a c e cb s =
     (if dict_contains n (processes s) then Inr (False, already_running n s)
      else case get_node_executable h of
             Inr node \<Rightarrow>
               spawn_and_register sp (''node'' # path_str h sc # or_empty a) c
                 (merge_env (os_environ h) e) n cb
                 (starting n (''node'' # path_str h sc # or_empty a) s)
           | Inl x \<Rightarrow>
               (if \<exists>m. x = RuntimeError m then Inr (False, logger ERROR (exn_str x) s)
                else Inl x))"
  by (auto simp: start_node_process_def Let_def dest: get_node_executable_Inr
      split: sum.splits exn.splits)

lemma spawn_and_register_Spawned:
  "spawn_and_register (Spawned p) cmd cwd env n cb s =
     Inr (True, started n \<lparr>pid = p, returncode = None\<rparr>
                  (registered n p cb (s\<lparr>effects := effects s @ [Exec cmd cwd env]\<rparr>)))"
  by (simp add: spawn_and_register_def create_subprocess_exec_def registered_def Let_def)

lemma spawn_and_register_Failed:
  "spawn_and_register (SpawnFailed m) cmd cwd env n cb s =
     Inr (False, failed_to_start n (OSError m) (s\<lparr>effects := effects s @ [Exec cmd cwd env]\<rparr>))"
  by (simp add: spawn_and_register_def create_subprocess_exec_def Let_def)

lemma spawn_and_register_Inr:
  "\<exists>b s'. spawn_and_register sp cmd cwd env n cb s = Inr (b, s')"
  by (cases sp) (auto simp: spawn_and_register_Spawned spawn_and_register_Failed)

lemma start_python_process_Inr:
  "\<exists>b s'. start_python_process h sp n md a c e v cb s = Inr (b, s')"
  by (auto simp: start_python_process_def Let_def spawn_and_register_Inr)

lemma start_npx_process_Inr:
  "\<exists>b s'. start_npx_process h sp n pk a c e cb s = Inr (b, s')"
  by (auto simp: start_npx_process_def Let_def spawn_and_register_Inr)

lemma registered_fields [simp]:
  "processes (registered n p cb s) = dict_set n \<lparr>pid = p, returncode = None\<rparr> (processes s)"
  "output_buffers (registered n p cb s) = dict_set n (new_deque (max_output_lines s)) (output_buffers s)"
  "output_tasks (registered n p cb s) = dict_set n (create_task cb) (output_tasks s)"
  "max_output_lines (registered n p cb s) = max_output_lines s"
  "effects (registered n p cb s) = effects s"
  by (simp_all add: registered_def)

lemma start_collision:
  "dict_contains n (processes s) \<Longrightarrow>
     start_node_process h sp n sc a c e cb s = Inr (False, already_running n s) \<and>
     start_python_process h sp n md a c e v cb s = Inr (False, already_running n s) \<and>
     start_npx_process h sp n pk a c e cb s = Inr (False, already_running n s)"
  by (simp add: start_node_process_def start_python_process_def start_npx_process_def)

lemma stop_each_Inr:
  "\<exists>s'. stop_each ns t env s = Inr s' \<and>
        processes s' = filter (\<lambda>kv. fst kv \<notin> set ns) (processes s) \<and>
        output_buffers s' = output_buffers s \<and>
        max_output_lines s' = max_output_lines s"
proof (induction ns arbitrary: s)
  case Nil
  then show ?case by simp
next
  case (Cons n ns)
  obtain s1 where s1: "stop n t (env n) s = Inr (True, s1)"
    and p1: "processes s1 = AList.delete n (processes s)"
    and b1: "output_buffers s1 = output_buffers s" "max_output_lines s1 = max_output_lines s"
    using stop_Inr [of n t "env n" s] by blast
  obtain s' where s': "stop_each ns t env s1 = Inr s'"
    and p': "processes s' = filter (\<lambda>kv. fst kv \<notin> set ns) (processes s1)"
    and b': "output_buffers s' = output_buffers s1" "max_output_lines s' = max_output_lines s1"
    using Cons.IH [of s1] by blast
  have "filter (\<lambda>kv. fst kv \<notin> set ns) (AList.delete n (processes s)) =
        filter (\<lambda>kv. fst kv \<notin> set (n # ns)) (processes s)"
    by (auto simp: AList.delete_eq intro!: filter_cong)
  then show ?case
    using s1 s' p1 p' b1 b' by simp
qed

lemma stop_all_Inr:
  "\<exists>s'. stop_all t env s = Inr s' \<and> processes s' = [] \<and>
        output_buffers s' = output_buffers s \<and> max_output_lines s' = max_output_lines s"
proof -
  have "filter (\<lambda>kv. fst kv \<notin> set (dict_keys (processes s))) (processes s) = []"
    by (auto simp: dict_keys_def filter_empty_conv)
  then show ?thesis
    using stop_each_Inr [of "dict_keys (processes s)" t env s]
    by (auto simp: stop_all_def)
qed

lemma stop_all_Cons:
  assumes "processes s = (n, p) # ps" and "distinct (dict_keys (processes s))"
  shows "stop_all t env s =
           (case stop n t (env n) s of Inl e \<Rightarrow> Inl e | Inr (_, s1) \<Rightarrow> stop_all t env s1)"
proof -
  obtain s1 where s1: "stop n t (env n) s = Inr (True, s1)"
    and p1: "processes s1 = AList.delete n (processes s)"
    using stop_Inr [of n t "env n" s] by blast
  have "n \<notin> fst ` set ps" using assms by (auto simp: dict_keys_def)
  then have "processes s1 = ps"
    using p1 assms(1) by simp
  then show ?thesis
    using s1 assms(1) by (simp add: stop_all_def dict_keys_def)
qed

lemma start_frame:
  assumes "start_node_process h sp n sc a c e cb s = Inr (b, s') \<or>
           start_python_process h sp n md a c e v cb s = Inr (b, s') \<or>
           start_npx_process h sp n pk a c e cb s = Inr (b, s')"
  shows "max_output_lines s' = max_output_lines s"
    and "b \<Longrightarrow> \<not> dict_contains n (processes s)"
    and "\<not> b \<Longrightarrow> processes s' = processes s \<and> output_buffers s' = output_buffers s \<and>
                output_tasks s' = output_tasks s"
    and "b \<Longrightarrow> \<exists>p. sp = Spawned p \<and>
                  processes s' = dict_set n \<lparr>pid = p, returncode = None\<rparr> (processes s) \<and>
                  output_buffers s' =
                    dict_set n (new_deque (max_output_lines s)) (output_buffers s) \<and>
                  output_tasks s' = dict_set n (create_task cb) (output_tasks s)"
  using assms
  by (cases sp;
      auto simp: start_node_process_eq start_python_process_def start_npx_process_def Let_def
        spawn_and_register_Spawned spawn_and_register_Failed split: if_splits sum.splits)+


lemma start_step_intro:
  assumes "start_node_process h sp n sc a c e cb s = Inr (b, s') \<or>
           start_python_process h sp n md a c e v cb s = Inr (b, s') \<or>
           start_npx_process h sp n pk a c e cb s = Inr (b, s')"
  shows "start_step n s s'"
  using start_frame [OF assms] by (cases b) (auto simp: start_step_def)

lemma exec_start_step: "starts m c \<Longrightarrow> start_step m s (exec c s)"
proof (cases c)
  case (StartNode h sp n sc a cw e cb)
  assume "starts m c"
  then have [simp]: "n = m" using StartNode by simp
  show ?thesis
  proof (cases "start_node_process h sp m sc a cw e cb s")
    case (Inl x)
    then show ?thesis using StartNode by (simp add: state_after_def start_step_def)
  next
    case (Inr r)
    obtain b s' where "r = (b, s')" by (cases r)
    then have r: "start_node_process h sp m sc a cw e cb s = Inr (b, s')" using Inr by simp
    then show ?thesis
      using StartNode start_step_intro [OF disjI1 [OF r]]
      by (simp add: state_after_def)
  qed
next
  case (StartPython h sp n md a cw e v cb)
  assume "starts m c"
  then have [simp]: "n = m" using StartPython by simp
  obtain b s' where r: "start_python_process h sp m md a cw e v cb s = Inr (b, s')"
    using start_python_process_Inr by blast
  then show ?thesis
    using StartPython start_step_intro [OF disjI2 [OF disjI1 [OF r]]]
    by (simp add: state_after_def)
next
  case (StartNpx h sp n pk a cw e cb)
  assume "starts m c"
  then have [simp]: "n = m" using StartNpx by simp
  obtain b s' where r: "start_npx_process h sp m pk a cw e cb s = Inr (b, s')"
    using start_npx_process_Inr by blast
  then show ?thesis
    using StartNpx start_step_intro [OF disjI2 [OF disjI2 [OF r]]]
    by (simp add: state_after_def)
qed simp_all

lemma starts_cases: "(\<exists>m. starts m c) \<or> (\<exists>m t e. c = Stop m t e) \<or> (\<exists>t e. c = StopAll t e) \<or>
    (\<exists>m rs. c = ReadOutput m rs) \<or> (\<exists>m rc. c = Exits m rc)"
  by (cases c) auto

lemma exec_Stop: "processes (exec (Stop m t e) s) = AList.delete m (processes s) \<and>
    output_buffers (exec (Stop m t e) s) = output_buffers s \<and>
    max_output_lines (exec (Stop m t e) s) = max_output_lines s"
  using stop_Inr [of m t e s] by (auto simp: state_after_def)

lemma exec_StopAll: "processes (exec (StopAll t e) s) = [] \<and>
    output_buffers (exec (StopAll t e) s) = output_buffers s \<and>
    max_output_lines (exec (StopAll t e) s) = max_output_lines s"
  using stop_all_Inr [of t e s] by auto

lemma process_exits_frame [simp]:
  "output_buffers (process_exits m rc s) = output_buffers s"
  "max_output_lines (process_exits m rc s) = max_output_lines s"
  "output_tasks (process_exits m rc s) = output_tasks s"
  by (simp_all add: process_exits_def split: option.splits)

lemma process_exits_lookup:
  "map_of (processes s) n = Some q \<Longrightarrow>
     \<exists>q'. map_of (processes (process_exits m rc s)) n = Some q' \<and> pid q' = pid q"
  by (auto simp: process_exits_def split: option.splits)

lemma process_exits_keys: "dict_keys (processes (process_exits m rc s)) = dict_keys (processes s)"
  by (auto simp: process_exits_def dict_keys_set_same dict_contains_def split: option.splits)

lemma exec_keeps:
  assumes "\<not> stops n c" and "map_of (processes s) n = Some q"
  shows "\<exists>q'. map_of (processes (exec c s)) n = Some q' \<and> pid q' = pid q"
  using starts_cases [of c]
proof (elim disjE exE)
  fix m assume st: "starts m c"
  have "dict_contains n (processes s)" using assms(2) by (simp add: dict_contains_def)
  then show ?thesis
    using exec_start_step [OF st, of s] assms(2)
    by (auto simp: start_step_def)
next
  fix m t e assume "c = Stop m t e"
  then show ?thesis using assms exec_Stop [of m t e s] by (simp add: delete_conv')
next
  fix t e assume "c = StopAll t e"
  then show ?thesis using assms by simp
next
  fix m rs assume "c = ReadOutput m rs"
  then show ?thesis using assms read_output_frame [of m rs s] by simp
next
  fix m rc assume "c = Exits m rc"
  then show ?thesis using assms process_exits_lookup by simp
qed

lemma run_keeps:
  "\<forall>c \<in> set cs. \<not> stops n c \<Longrightarrow> map_of (processes s) n = Some q \<Longrightarrow>
     \<exists>q'. map_of (processes (run cs s)) n = Some q' \<and> pid q' = pid q"
proof (induction cs arbitrary: s q)
  case Nil
  then show ?case by simp
next
  case (Cons c cs)
  obtain q1 where q1: "map_of (processes (exec c s)) n = Some q1" "pid q1 = pid q"
    using exec_keeps [of n c s q] Cons.prems by auto
  show ?case
    using Cons.IH [of "exec c s" q1] Cons.prems(1) q1 by simp
qed

lemma exec_no_start:
  assumes "\<not> starts n c" and "\<not> dict_contains n (processes s)"
  shows "\<not> dict_contains n (processes (exec c s))"
  using starts_cases [of c]
proof (elim disjE exE)
  fix m assume st: "starts m c"
  then have "m \<noteq> n" using assms(1) by (cases c) auto
  then show ?thesis
    using exec_start_step [OF st, of s] assms(2)
    by (auto simp: start_step_def)
next
  fix m t e assume "c = Stop m t e"
  then show ?thesis using assms exec_Stop [of m t e s] by simp
next
  fix t e assume "c = StopAll t e"
  then show ?thesis using exec_StopAll [of t e s] by (simp add: dict_contains_def)
next
  fix m rs assume "c = ReadOutput m rs"
  then show ?thesis using assms read_output_frame [of m rs s] by simp
next
  fix m rc assume "c = Exits m rc"
  then show ?thesis using assms process_exits_keys [of m rc s] by (simp add: dict_contains_keys)
qed

lemma run_no_start:
  "\<forall>c \<in> set cs. \<not> starts n c \<Longrightarrow> \<not> dict_contains n (processes s) \<Longrightarrow>
     \<not> dict_contains n (processes (run cs s))"
  by (induction cs arbitrary: s) (auto dest: exec_no_start)

lemma distinct_dict_set:
  "distinct (dict_keys d) \<Longrightarrow> distinct (dict_keys (dict_set k v d))"
  by (simp add: dict_keys_def dict_set_def distinct_update)

lemma exec_invariant:
  assumes "distinct (dict_keys (processes s)) \<and> buffers_ok s"
  shows "distinct (dict_keys (processes (exec c s))) \<and> buffers_ok (exec c s)"
  using starts_cases [of c]
proof (elim disjE exE)
  fix m assume st: "starts m c"
  have "buffers_ok (s\<lparr>output_buffers := dict_set m (new_deque (max_output_lines s)) (output_buffers s)\<rparr>)"
    using assms buffers_ok_set [of s "new_deque 1000" m] by (simp add: buffers_ok_def)
  then show ?thesis
    using exec_start_step [OF st, of s] assms
    by (auto simp: start_step_def distinct_dict_set buffers_ok_def)
next
  fix m t e assume "c = Stop m t e"
  then show ?thesis
    using assms exec_Stop [of m t e s]
    by (simp add: dict_keys_def distinct_delete buffers_ok_def)
next
  fix t e assume "c = StopAll t e"
  then show ?thesis
    using assms exec_StopAll [of t e s] by (simp add: dict_keys_def buffers_ok_def)
next
  fix m rs assume "c = ReadOutput m rs"
  then show ?thesis using assms read_output_frame [of m rs s] by simp
next
  fix m rc assume "c = Exits m rc"
  then show ?thesis
    using assms process_exits_keys [of m rc s] by (simp add: buffers_ok_def)
qed

lemma reachable_invariant:
  "reachable s \<Longrightarrow> distinct (dict_keys (processes s)) \<and> buffers_ok s"
proof (induction rule: reachable.induct)
  case reachable_init
  then show ?case by (simp add: init_def dict_keys_def buffers_ok_def)
next
  case (reachable_exec s c)
  then show ?case using exec_invariant by blast
qed

lemma reachable_run: "reachable s \<Longrightarrow> reachable (run cs s)"
  by (induction cs arbitrary: s) (auto intro: reachable_exec)

lemma start_free:
  assumes "\<not> dict_contains n (processes s)"
  shows "(\<exists>s'. start_python_process h (Spawned p) n md a c e v cb s = Inr (True, s') \<and>
              is_running s' n) \<and>
         (\<exists>s'. start_npx_process h (Spawned p) n pk a c e cb s = Inr (True, s') \<and>
              is_running s' n) \<and>
         (get_node_executable h = Inr ''node'' \<longrightarrow>
            (\<exists>s'. start_node_process h (Spawned p) n sc a c e cb s = Inr (True, s') \<and>
                 is_running s' n))"
  using assms
  by (simp add: start_python_process_def start_npx_process_def start_node_process_def
      Let_def spawn_and_register_Spawned is_running_def)

lemma start_spawn_failed:
  assumes "\<not> dict_contains n (processes s)"
  shows "(\<exists>s'. start_python_process h (SpawnFailed m) n md a c e v cb s = Inr (False, s') \<and>
              last (effects s') = Log ERROR (''Failed to start '' @ n @ '': '' @ m) \<and>
              processes s' = processes s) \<and>
         (\<exists>s'. start_npx_process h (SpawnFailed m) n pk a c e cb s = Inr (False, s') \<and>
              last (effects s') = Log ERROR (''Failed to start '' @ n @ '': '' @ m) \<and>
              processes s' = processes s) \<and>
         (get_node_executable h = Inr ''node'' \<longrightarrow>
            (\<exists>s'. start_node_process h (SpawnFailed m) n sc a c e cb s = Inr (False, s') \<and>
                 last (effects s') = Log ERROR (''Failed to start '' @ n @ '': '' @ m) \<and>
                 processes s' = processes s))"
  using assms
  by (simp add: start_python_process_def start_npx_process_def start_node_process_def
      Let_def spawn_and_register_Failed failed_to_start_def logger_def)

lemma start_node_not_found:
  assumes "\<not> dict_contains n (processes s)"
    and "get_node_executable h = Inl (RuntimeError node_not_found)"
  shows "start_node_process h sp n sc a c e cb s = Inr (False, logger ERROR node_not_found s)"
  using assms by (simp add: start_node_process_def)

lemma node_not_found_cases:
  assumes "\<not> nodejs_bin h"
    and "node_version h = ProbeRaises TimeoutExpired \<or>
         node_version h = ProbeRaises FileNotFoundError \<or>
         (\<exists>rc. node_version h = ProbeExit rc \<and> rc \<noteq> 0)"
  shows "get_node_executable h = Inl (RuntimeError node_not_found)"
  using assms
  by (auto simp: get_node_executable_def import_nodejs_def node_fallback_def subprocess_run_def)

lemma stop_vanished:
  assumes "map_of (processes s) n = Some q" and "returncode q = None"
    and "on_terminate env = Vanished"
  shows "stop n t env s = Inr (True, (stopping n q s)\<lparr>processes := AList.delete n (processes s)\<rparr>)"
proof -
  have "dict_contains n (processes s)" using assms(1) by (simp add: dict_contains_def)
  then show ?thesis
    using assms by (simp add: stop_def dict_get_Inr terminate_def del_process_Inr)
qed

lemma stop_exited:
  assumes "map_of (processes s) n = Some q" and "returncode q \<noteq> None"
  shows "stop n t env s = Inr (True, s\<lparr>processes := AList.delete n (processes s)\<rparr>)"
proof -
  have "dict_contains n (processes s)" using assms(1) by (simp add: dict_contains_def)
  then show ?thesis
    using assms by (simp add: stop_def dict_get_Inr del_process_Inr)
qed

subsection \<open>Stopping while other tasks run\<close>

lemma keeps_buffers_refl [simp]: "keeps_buffers s s"
  by (simp add: keeps_buffers_def)



lemma keeps_buffers_eq:
  "output_buffers s' = output_buffers s \<Longrightarrow> keeps_buffers s s'"
  by (simp add: keeps_buffers_def)





lemma cancel_and_await_buffers [simp]:
  "output_buffers (cancel_and_await n s) = output_buffers s"
  by (simp add: cancel_and_await_eq Let_def split: option.splits)




lemma stop_interleaved_nothing_else:
  "stop_interleaved n t env nothing_else s = stop n t env s"
proof -
  have w: "wait_or_kill_interleaved n env nothing_else p t x = wait_or_kill n env p t x" for p x
    by (cases "on_wait_for env"; cases "on_kill env")
       (simp_all add: wait_or_kill_interleaved_def wait_for_interleaved_def
          kill_and_wait_interleaved_def wait_or_kill_def wait_for_def kill_and_wait_def
          nothing_else_def Let_def)
  have c: "cancel_output_reader_interleaved n [] x = cancel_output_reader n x" for x
    by (simp add: cancel_output_reader_interleaved_def cancel_output_reader_def)
  have d: "during_await_task nothing_else = []" by (simp add: nothing_else_def)
  show ?thesis
    unfolding stop_interleaved_def stop_def d
    by (simp add: w c cong: sum.case_cong exn.case_cong if_cong)
qed

lemma same_but_effects_refl [simp]: "same_but_effects s s"
  by (simp add: same_but_effects_def)

lemma same_but_effects_sym: "same_but_effects s s' \<Longrightarrow> same_but_effects s' s"
  by (simp add: same_but_effects_def)

lemma same_but_effects_trans:
  "same_but_effects s s1 \<Longrightarrow> same_but_effects s1 s2 \<Longrightarrow> same_but_effects s s2"
  by (simp add: same_but_effects_def)

lemma same_but_effects_upd [simp]: "same_but_effects s (s\<lparr>effects := es\<rparr>)"
  by (simp add: same_but_effects_def)





lemma run_reads_processes:
  "\<forall>c \<in> set cs. is_read c \<Longrightarrow> processes (run cs s) = processes s"
proof (induction cs arbitrary: s)
  case Nil
  then show ?case by simp
next
  case (Cons c cs)
  obtain n rs where c: "c = ReadOutput n rs"
    using Cons.prems(1) by (cases c) auto
  show ?case
    using Cons.IH [of "exec c s"] Cons.prems c read_output_frame [of n rs s] by simp
qed

subsection \<open>Evaluating the concrete managers\<close>

lemmas eval_defs =
  start_sync_def start_fussy_def start_a_def start_b_def fussy_def three_lines_def host0_def graceful_def vanished_def init_def state_after_def
  start_npx_process_def start_python_process_def start_node_process_def
  dict_contains_def dict_get_def dict_set_def dict_del_def dict_keys_def
  spawn_and_register_def create_subprocess_exec_def create_task_def new_deque_def
  starting_def started_def already_running_def failed_to_start_def logger_def
  or_empty_def merge_env_def import_nodejs_def Let_def
  read_output_def read_handler_def error_reading_def deque_append_def
  rstrip_def is_space_def process_exits_def
  stop_def del_process_def stopping_def stopped_def not_graceful_def
  terminate_def wait_for_def kill_and_wait_def wait_or_kill_def
  cancel_output_reader_def cancel_and_await_def
  get_output_def slice_from_def is_running_def

lemma sync_started_eq:
  "sync_started =
     \<lparr>processes = [(''sync'', \<lparr>pid = 7, returncode = None\<rparr>)],
      output_buffers = [(''sync'', \<lparr>items = [], maxlen = 1000\<rparr>)],
      output_tasks = [(''sync'', \<lparr>on_line = None, status = Active\<rparr>)],
      max_output_lines = 1000,
      effects = [Log INFO ''Starting sync: npx mrmd-sync'',
                 Exec [''npx'', ''mrmd-sync''] None [(''PATH'', ''/usr/bin'')],
                 Log INFO (''Started sync with PID '' @ show_nat 7)]\<rparr>"
  by (simp add: sync_started_def eval_defs)

lemma sync_ready_eq:
  "sync_ready = sync_started\<lparr>output_buffers := [(''sync'', \<lparr>items = [''ready''], maxlen = 1000\<rparr>)]\<rparr>"
  by (simp add: sync_ready_def sync_started_eq eval_defs)


lemma slice_from_suffix: "suffix (slice_from i xs) xs"
  by (simp add: slice_from_def suffix_drop)

lemma get_output_unknown: "map_of (output_buffers s) n = None \<Longrightarrow> get_output s n k = []"
  by (simp add: get_output_def)

lemma get_output_suffix:
  "map_of (output_buffers s) n = Some d \<Longrightarrow> suffix (get_output s n k) (items d)"
  by (simp add: get_output_def slice_from_suffix)

lemma get_output_positive:
  assumes "reachable s" and "0 < k"
  shows "length (get_output s n k) \<le> nat k \<and> length (get_output s n k) \<le> 1000"
proof (cases "map_of (output_buffers s) n")
  case None
  then show ?thesis by (simp add: get_output_def)
next
  case (Some d)
  have "buffer_ok d"
    using reachable_invariant [OF assms(1)] Some buffers_ok_lookup by blast
  then show ?thesis
    using Some assms(2) by (auto simp: get_output_def slice_from_def buffer_ok_def)
qed

lemma deque_append_suffix: "suffix (items (deque_append d x)) (items d @ [x])"
  by (cases "items d") (auto simp: deque_append_def Let_def suffix_def intro: exI [of _ "[]"])

lemma stop_delivered_cancels:
  assumes "map_of (processes s) n = Some q" and "returncode q = None"
    and "on_terminate env = Delivered"
  shows "\<exists>s'. stop n t env s = Inr (True, s') \<and>
              output_tasks s' = AList.delete n (output_tasks s) \<and>
              \<not> dict_contains n (output_tasks s')"
proof -
  define s2 where "s2 = (stopping n q s)\<lparr>effects := effects (stopping n q s) @ [Terminate (pid q)]\<rparr>"
  obtain s3 where s3: "wait_or_kill n env q t s2 = Inr s3"
    and f3: "processes s3 = processes s2" "output_tasks s3 = output_tasks s2"
    using wait_or_kill_Inr [of n env q t s2] by blast
  obtain s4 where s4: "cancel_output_reader n s3 = Inr s4"
    and f4: "processes s4 = processes s3" "output_tasks s4 = AList.delete n (output_tasks s3)"
    using cancel_output_reader_Inr [of n s3] by blast
  have f2: "processes s2 = processes s" "output_tasks s2 = output_tasks s"
    by (simp_all add: s2_def)
  have c: "dict_contains n (processes s)" using assms(1) by (simp add: dict_contains_def)
  then have c4: "dict_contains n (processes s4)" using f2 f3 f4 by simp
  have "stop n t env s = Inr (True, stopped n (s4\<lparr>processes := AList.delete n (processes s4)\<rparr>))"
    using c assms s3 s4 c4
    by (simp add: stop_def dict_get_Inr terminate_def del_process_Inr s2_def [symmetric])
  then show ?thesis using f2 f3 f4 by simp
qed

lemma reachable_sync_ready: "reachable sync_ready"
proof -
  have "reachable (exec (ReadOutput ''sync'' [Read (''ready'' @ [CHR 0x0A])]) (exec start_sync init))"
    by (intro reachable_exec reachable_init)
  then show ?thesis by (simp add: sync_ready_def sync_started_def)
qed

lemma sync_exited_eq:
  "sync_exited = sync_started\<lparr>processes := [(''sync'', \<lparr>pid = 7, returncode = Some 0\<rparr>)]\<rparr>"
  by (simp add: sync_exited_def sync_started_eq eval_defs)

lemma stop_sync_ready: "stop ''sync'' 5 graceful sync_ready = Inr (True, sync_stopped)"
  by (simp add: sync_stopped_def sync_ready_eq sync_started_eq eval_defs)

lemma start_sync_init:
  "start_npx_process host0 (Spawned 7) ''sync'' ''mrmd-sync'' None None None None init =
     Inr (True, sync_started)"
  by (simp add: sync_started_def eval_defs)

lemma get_node_host0: "get_node_executable host0 = Inr ''node''"
  by (simp add: get_node_executable_def import_nodejs_def node_fallback_def
      subprocess_run_def host0_def)

lemma reachable_two_started: "reachable two_started"
  unfolding two_started_def by (rule reachable_run [OF reachable_init])

lemma two_started_keys: "dict_keys (processes two_started) = [''a'', ''b'']"
  by (simp add: two_started_def eval_defs)

lemma same_but_effects_log [simp]:
  "same_but_effects s (not_graceful n s)"
  "same_but_effects s (stopping n p s)"
  "same_but_effects s (stopped n s)"
  by (simp_all add: same_but_effects_def)




lemmas eval_more =
  stop_interleaved_def wait_or_kill_interleaved_def wait_for_interleaved_def
  kill_and_wait_interleaved_def cancel_output_reader_interleaved_def
  printing_on_term_def overlapping_stop_def ran_before_cancel_def


section \<open>Starting under a name in use\<close>

text \<open>
  C1: once a start call for the name \<open>n\<close> has returned \<^verbatim>\<open>True\<close>, and whatever happens
  afterwards short of stopping \<open>n\<close> (other starts and stops, reader tasks running,
  children exiting), each of the three start methods called with \<open>n\<close> returns
  \<^verbatim>\<open>False\<close>.  The refused call only writes the warning to the log: it makes no call
  to \<^verbatim>\<open>create_subprocess_exec\<close>, and the registry, the buffers and the tasks are as
  before, so \<open>n\<close> is still mapped to the process that the first call spawned.
\<close>

theorem second_start_is_refused:
  assumes "start_node_process h sp n sc a c e cb s0 = Inr (True, s1) \<or>
           start_python_process h sp n md a c e v cb s0 = Inr (True, s1) \<or>
           start_npx_process h sp n pk a c e cb s0 = Inr (True, s1)"
    and "\<forall>x \<in> set cs. \<not> stops n x"
  shows "start_node_process h' sp' n sc' a' c' e' cb' (run cs s1) =
           Inr (False, already_running n (run cs s1)) \<and>
         start_python_process h' sp' n md' a' c' e' v' cb' (run cs s1) =
           Inr (False, already_running n (run cs s1)) \<and>
         start_npx_process h' sp' n pk' a' c' e' cb' (run cs s1) =
           Inr (False, already_running n (run cs s1)) \<and>
         effects (already_running n (run cs s1)) =
           effects (run cs s1) @ [Log WARNING (''Process '' @ n @ '' already running'')] \<and>
         processes (already_running n (run cs s1)) = processes (run cs s1) \<and>
         output_buffers (already_running n (run cs s1)) = output_buffers (run cs s1) \<and>
         output_tasks (already_running n (run cs s1)) = output_tasks (run cs s1) \<and>
         (\<exists>p q. sp = Spawned p \<and>
                map_of (processes s1) n = Some \<lparr>pid = p, returncode = None\<rparr> \<and>
                map_of (processes (already_running n (run cs s1))) n = Some q \<and> pid q = p)"
proof -
  obtain p where sp: "sp = Spawned p"
    and ps: "processes s1 = dict_set n \<lparr>pid = p, returncode = None\<rparr> (processes s0)"
    using start_frame(4) [OF assms(1)] by auto
  have p: "sp = Spawned p" "map_of (processes s1) n = Some \<lparr>pid = p, returncode = None\<rparr>"
    using sp ps by simp_all
  obtain q where q: "map_of (processes (run cs s1)) n = Some q" "pid q = p"
    using run_keeps [OF assms(2) p(2)] by auto
  then have "dict_contains n (processes (run cs s1))"
    by (simp add: dict_contains_def)
  then show ?thesis
    using p q start_collision [of n "run cs s1"]
    by (simp add: already_running_def logger_def)
qed

text \<open>The theorem at work: \<^verbatim>\<open>sync\<close> is started, prints \<^verbatim>\<open>ready\<close>, and a second
  start under the same name is refused with the first process still registered.\<close>

theorem second_start_is_refused_witness:
  "start_npx_process host0 (Spawned 7) ''sync'' ''mrmd-sync'' None None None None init =
     Inr (True, sync_started) \<and>
   start_python_process host0 (Spawned 8) ''sync'' ''mrmd_python.cli'' None None None None None
     sync_ready = Inr (False, already_running ''sync'' sync_ready) \<and>
   map_of (processes (already_running ''sync'' sync_ready)) ''sync'' =
     Some \<lparr>pid = 7, returncode = None\<rparr>"
proof -
  have r: "run [ReadOutput ''sync'' [Read (''ready'' @ [CHR 0x0A])]] sync_started = sync_ready"
    by (simp add: sync_ready_def)
  have ns: "\<forall>x \<in> set [ReadOutput ''sync'' [Read (''ready'' @ [CHR 0x0A])]]. \<not> stops ''sync'' x"
    by simp
  have "map_of (processes (already_running ''sync'' sync_ready)) ''sync'' =
     Some \<lparr>pid = 7, returncode = None\<rparr>"
    by (simp add: sync_ready_eq sync_started_eq already_running_def logger_def)
  moreover have "start_python_process host0 (Spawned 8) ''sync'' ''mrmd_python.cli''
      None None None None None (run [ReadOutput ''sync'' [Read (''ready'' @ [CHR 0x0A])]] sync_started) =
    Inr (False, already_running ''sync''
      (run [ReadOutput ''sync'' [Read (''ready'' @ [CHR 0x0A])]] sync_started))"
    by (rule second_start_is_refused [OF disjI2 [OF disjI2 [OF start_sync_init]] ns,
          THEN conjunct2, THEN conjunct1])
  ultimately show ?thesis
    using r start_sync_init by simp
qed

section \<open>Reading the output\<close>

text \<open>
  C2: \<^verbatim>\<open>get_output(n, k)\<close> is to return at most \<open>k\<close> lines, also for \<open>k = 0\<close>.
  The method returns \<^verbatim>\<open>list(buffer)[-lines:]\<close>, and for \<^verbatim>\<open>lines = 0\<close> the slice
  \<^verbatim>\<open>[-0:]\<close> is the whole list: after the child has printed one line, a request for no
  lines returns that line.  (For \<open>k > 0\<close> the bounds of the claim hold in every reachable
  state, see \<open>get_output_positive\<close>, and the result is a suffix of the buffer, see
  \<open>get_output_suffix\<close>.)
\<close>

theorem get_output_zero_returns_all:
  "reachable sync_ready \<and> get_output sync_ready ''sync'' 0 = [''ready''] \<and>
   length (get_output sync_ready ''sync'' 0) = 1"
  using reachable_sync_ready by (simp add: sync_ready_eq sync_started_eq eval_defs)

text \<open>
  C5: a callback that raises does not let the reader go on.  With a callback that raises
  on the line \<^verbatim>\<open>boom\<close> and a child that prints \<^verbatim>\<open>ok\<close>, \<^verbatim>\<open>boom\<close>, \<^verbatim>\<open>after\<close>, the
  buffer ends with \<^verbatim>\<open>boom\<close>, the callback never sees \<^verbatim>\<open>after\<close>, and the task is done.
\<close>

theorem callback_failure_ends_reader:
  "get_output fussy_read ''sync'' 50 = [''ok'', ''boom''] \<and>
   Callback ''sync'' ''after'' \<notin> set (effects fussy_read) \<and>
   map_of (output_tasks fussy_read) ''sync'' = Some \<lparr>on_line = Some fussy, status = Done\<rparr>"
  by (simp add: fussy_read_def eval_defs)

text \<open>
  C5, as the code has it: when the callback raises on a line, the exception stays inside
  the reader task.  The line is in the buffer already, the callback has been called with
  it, the failure is logged as an error (a \<^verbatim>\<open>CancelledError\<close> is passed over without a
  log record), and the loop is left: the task is done, whatever the child prints afterwards
  is not read, and running the reader again changes nothing.
\<close>

theorem callback_failure_is_logged:
  assumes "map_of (output_tasks s) n = Some t" and "status t = Active"
    and "on_line t = Some f" and "map_of (output_buffers s) n = Some d"
    and "line \<noteq> []" and "f (rstrip line) = Some e"
  shows "read_output n (Read line # rest) s =
           (if e = CancelledError then (\<lambda>x. x) else error_reading n e)
             (s\<lparr>output_buffers := dict_set n (deque_append d (rstrip line)) (output_buffers s),
                effects := effects s @ [Callback n (rstrip line)]\<rparr>)
           \<lparr>output_tasks := dict_set n (t\<lparr>status := Done\<rparr>) (output_tasks s)\<rparr> \<and>
         read_output n later (read_output n (Read line # rest) s) =
           read_output n (Read line # rest) s"
  using assms
  by (simp add: read_output_def read_handler_def is_Exception_iff dict_get_def Let_def
      error_reading_def logger_def)

text \<open>The theorem at work: the callback \<open>fussy\<close> raises on \<^verbatim>\<open>boom\<close>, and what
  the child prints later is not read.\<close>

theorem callback_failure_is_logged_witness:
  "map_of (output_tasks fussy_started) ''sync'' = Some \<lparr>on_line = Some fussy, status = Active\<rparr> \<and>
   fussy (rstrip (''boom'' @ [CHR 0x0A])) = Some (CallbackError ''bad line'') \<and>
   read_output ''sync'' [Read (''more'' @ [CHR 0x0A])]
     (read_output ''sync'' [Read (''boom'' @ [CHR 0x0A]), Read (''after'' @ [CHR 0x0A])]
        fussy_started) =
   read_output ''sync'' [Read (''boom'' @ [CHR 0x0A]), Read (''after'' @ [CHR 0x0A])]
     fussy_started"
proof -
  have a: "map_of (output_tasks fussy_started) ''sync'' =
             Some \<lparr>on_line = Some fussy, status = Active\<rparr>"
    by (simp add: fussy_started_def eval_defs)
  have b: "map_of (output_buffers fussy_started) ''sync'' = Some \<lparr>items = [], maxlen = 1000\<rparr>"
    by (simp add: fussy_started_def eval_defs)
  have c: "fussy (rstrip (''boom'' @ [CHR 0x0A])) = Some (CallbackError ''bad line'')"
    by (simp add: fussy_def rstrip_def is_space_def)
  have d: "''boom'' @ [CHR 0x0A] \<noteq> []" by simp
  have s1: "status \<lparr>on_line = Some fussy, status = Active\<rparr> = Active" by simp
  have s2: "on_line \<lparr>on_line = Some fussy, status = Active\<rparr> = Some fussy" by simp
  note t = callback_failure_is_logged [OF a s1 s2 b d c, THEN conjunct2]
  show ?thesis
    using a c t [of "[Read (''more'' @ [CHR 0x0A])]" "[Read (''after'' @ [CHR 0x0A])]"]
    by simp
qed

section \<open>Stopping\<close>

text \<open>
  C8: \<^verbatim>\<open>stop\<close> of a name that is not registered returns \<^verbatim>\<open>True\<close> and leaves the
  whole state as it was: the registry, the buffers, the tasks and the trace of effects
  (so no signal is sent and nothing is logged).  A name is not registered when no
  history since \<^verbatim>\<open>ProcessManager()\<close> has started it, and when it has just been
  stopped.
\<close>

theorem stop_unknown_is_noop:
  "(\<not> dict_contains n (processes s) \<longrightarrow> stop n t env s = Inr (True, s)) \<and>
   ((\<forall>c \<in> set cs. \<not> starts n c) \<longrightarrow> stop n t env (run cs init) = Inr (True, run cs init)) \<and>
   (\<forall>t0 env0 s1. stop n t0 env0 s = Inr (True, s1) \<longrightarrow> stop n t env s1 = Inr (True, s1))"
proof (intro conjI impI allI)
  assume "\<not> dict_contains n (processes s)"
  then show "stop n t env s = Inr (True, s)" by (rule stop_unknown)
next
  assume "\<forall>c \<in> set cs. \<not> starts n c"
  moreover have "\<not> dict_contains n (processes init)"
    by (simp add: init_def dict_contains_def)
  ultimately have "\<not> dict_contains n (processes (run cs init))"
    by (rule run_no_start)
  then show "stop n t env (run cs init) = Inr (True, run cs init)" by (rule stop_unknown)
next
  fix t0 env0 s1
  assume "stop n t0 env0 s = Inr (True, s1)"
  then have "processes s1 = AList.delete n (processes s)"
    using stop_Inr [of n t0 env0 s] by auto
  then have "\<not> dict_contains n (processes s1)" by simp
  then show "stop n t env s1 = Inr (True, s1)" by (rule stop_unknown)
qed

text \<open>The theorem at work: \<^verbatim>\<open>sync\<close> on a fresh manager, \<^verbatim>\<open>b\<close> on a manager that has
  only started \<^verbatim>\<open>sync\<close>, and \<^verbatim>\<open>sync\<close> once more after it has been stopped.\<close>

theorem stop_unknown_is_noop_witness:
  "\<not> dict_contains ''sync'' (processes init) \<and>
   stop ''sync'' 5 graceful init = Inr (True, init) \<and>
   stop ''b'' 5 graceful sync_started = Inr (True, sync_started) \<and>
   stop ''sync'' 5 graceful sync_ready = Inr (True, sync_stopped) \<and>
   stop ''sync'' 1 vanished sync_stopped = Inr (True, sync_stopped)"
proof -
  have a: "\<not> dict_contains ''sync'' (processes init)"
    by (simp add: init_def dict_contains_def)
  have b: "\<forall>c \<in> set [start_sync]. \<not> starts ''b'' c"
    by (simp add: start_sync_def)
  have r: "run [start_sync] init = sync_started"
    by (simp add: sync_started_def)
  note t1 = stop_unknown_is_noop [of "''sync''" init 5 graceful "[]", THEN conjunct1]
  note t2 = stop_unknown_is_noop [of "''b''" init 5 graceful "[start_sync]",
      THEN conjunct2, THEN conjunct1]
  note t3 = stop_unknown_is_noop [of "''sync''" sync_ready 1 vanished "[]",
      THEN conjunct2, THEN conjunct2]
  show ?thesis
    using a b r t1 t2 t3 stop_sync_ready by simp
qed

text \<open>
  C10: \<^verbatim>\<open>stop\<close> returns \<^verbatim>\<open>True\<close> on every path.  For every name, registered or
  not, every timeout, every state and every answer of the operating system (the process
  has already exited, exits within the timeout, has to be killed after it, or has
  vanished when the signal is sent), the call returns normally and its value is
  \<^verbatim>\<open>True\<close>; no path raises and no path returns \<^verbatim>\<open>False\<close>.
\<close>

theorem stop_returns_true: "\<exists>s'. stop n t env s = Inr (True, s')"
  using stop_Inr [of n t env s] by blast

text \<open>
  C3: \<^verbatim>\<open>stop\<close> is to cancel and await the reader task on every path that removes the
  registry entry.  The path at the end of the method does (\<open>stop_delivered_cancels\<close>);
  the two early returns do not.  For a child that has exited while its reader task is
  still active, and for a child that has vanished when \<^verbatim>\<open>terminate\<close> is called,
  \<^verbatim>\<open>stop\<close> deletes the registry entry and returns \<^verbatim>\<open>True\<close> with the task still
  registered and still active, and without a cancellation.
\<close>

theorem stop_leaves_reader_task:
  "map_of (output_tasks sync_exited) ''sync'' = Some \<lparr>on_line = None, status = Active\<rparr> \<and>
   stop ''sync'' 5 graceful sync_exited = Inr (True, sync_exited\<lparr>processes := []\<rparr>) \<and>
   map_of (output_tasks sync_started) ''sync'' = Some \<lparr>on_line = None, status = Active\<rparr> \<and>
   stop ''sync'' 5 vanished sync_started =
     Inr (True, (stopping ''sync'' \<lparr>pid = 7, returncode = None\<rparr> sync_started)\<lparr>processes := []\<rparr>)"
  by (simp add: sync_exited_eq sync_started_eq eval_defs)






text \<open>
  C6: after \<^verbatim>\<open>stop(n, t)\<close> has returned \<^verbatim>\<open>True\<close>, \<^verbatim>\<open>is_running(n)\<close> is false
  and the name is free again: a start under \<open>n\<close> is not refused, and returns \<^verbatim>\<open>True\<close>
  with \<open>n\<close> running as soon as the operating system spawns the child (for
  \<^verbatim>\<open>start_node_process\<close>: and node is found).
\<close>

theorem name_free_after_stop:
  assumes "stop n t env s = Inr (True, s')"
  shows "\<not> is_running s' n \<and> \<not> dict_contains n (processes s') \<and>
         (\<exists>s''. start_python_process h (Spawned p) n md a c e v cb s' = Inr (True, s'') \<and>
               is_running s'' n) \<and>
         (\<exists>s''. start_npx_process h (Spawned p) n pk a c e cb s' = Inr (True, s'') \<and>
               is_running s'' n) \<and>
         (get_node_executable h = Inr ''node'' \<longrightarrow>
            (\<exists>s''. start_node_process h (Spawned p) n sc a c e cb s' = Inr (True, s'') \<and>
                  is_running s'' n))"
proof -
  have "processes s' = AList.delete n (processes s)"
    using assms stop_Inr [of n t env s] by auto
  then have free: "\<not> dict_contains n (processes s')" by simp
  then have "\<not> is_running s' n"
    by (simp add: is_running_def dict_contains_def)
  then show ?thesis
    using free start_free [OF free] by blast
qed

text \<open>The theorem at work: \<^verbatim>\<open>sync\<close> is stopped and then started again, through node
  and through npx.\<close>

theorem name_free_after_stop_witness:
  "stop ''sync'' 5 graceful sync_ready = Inr (True, sync_stopped) \<and>
   \<not> is_running sync_stopped ''sync'' \<and>
   get_node_executable host0 = Inr ''node'' \<and>
   (\<exists>s''. start_node_process host0 (Spawned 8) ''sync'' [''sync.js''] None None None None
            sync_stopped = Inr (True, s'') \<and> is_running s'' ''sync'') \<and>
   (\<exists>s''. start_npx_process host0 (Spawned 8) ''sync'' ''mrmd-sync'' None None None None
            sync_stopped = Inr (True, s'') \<and> is_running s'' ''sync'')"
proof -
  note t = name_free_after_stop [OF stop_sync_ready, of host0 8 "''mrmd-sync''" None None None
      None None "''mrmd-sync''" "[''sync.js'']"]
  show ?thesis
    using t stop_sync_ready get_node_host0 by simp
qed

text \<open>
  C7: in every reachable state \<^verbatim>\<open>stop_all(timeout)\<close> returns with an empty registry
  and \<^verbatim>\<open>get_status()\<close> is the empty mapping; every name that was registered is not
  running and can be started again.  The names are stopped one at a time in the order of
  the registry, each by \<^verbatim>\<open>stop\<close> with the timeout of the call: with an empty registry
  nothing happens, otherwise the first name is stopped, which removes just that name,
  and the rest of the call is \<^verbatim>\<open>stop_all\<close> with the same timeout on what is left.
\<close>

theorem stop_all_empties_registry:
  assumes "reachable s"
  shows "\<exists>s'. stop_all t env s = Inr s' \<and> processes s' = [] \<and> get_status s' = [] \<and>
           (\<forall>n \<in> set (dict_keys (processes s)).
              \<not> is_running s' n \<and>
              (\<exists>s''. start_python_process h (Spawned p) n md a c e v cb s' = Inr (True, s'')) \<and>
              (\<exists>s''. start_npx_process h (Spawned p) n pk a c e cb s' = Inr (True, s'')) \<and>
              (get_node_executable h = Inr ''node'' \<longrightarrow>
                 (\<exists>s''. start_node_process h (Spawned p) n sc a c e cb s' = Inr (True, s'')))) \<and>
           (processes s = [] \<longrightarrow> s' = s) \<and>
           (\<forall>n q ps. processes s = (n, q) # ps \<longrightarrow>
              (\<exists>s1. stop n t (env n) s = Inr (True, s1) \<and> processes s1 = ps \<and>
                    stop_all t env s1 = Inr s'))"
proof -
  obtain s' where s': "stop_all t env s = Inr s'" and p: "processes s' = []"
    using stop_all_Inr [of t env s] by blast
  have free: "\<not> dict_contains n (processes s')" for n
    using p by (simp add: dict_contains_def)
  have a: "\<not> is_running s' n" for n
    using p by (simp add: is_running_def)
  have b: "get_status s' = []" using p by (simp add: get_status_def)
  have c: "processes s = [] \<longrightarrow> s' = s"
    using s' by (auto simp: stop_all_def dict_keys_def)
  have d: "\<exists>s1. stop n t (env n) s = Inr (True, s1) \<and> processes s1 = ps \<and>
                 stop_all t env s1 = Inr s'" if ps: "processes s = (n, q) # ps" for n q ps
  proof -
    obtain s1 where s1: "stop n t (env n) s = Inr (True, s1)"
      and p1: "processes s1 = AList.delete n (processes s)"
      using stop_Inr [of n t "env n" s] by blast
    have "distinct (dict_keys (processes s))"
      using reachable_invariant [OF assms] by simp
    then have "n \<notin> fst ` set ps" using ps by (auto simp: dict_keys_def)
    then have "processes s1 = ps" using p1 ps by simp
    moreover have "stop_all t env s1 = Inr s'"
      using stop_all_Cons [OF ps \<open>distinct (dict_keys (processes s))\<close>, of t env] s1 s'
      by simp
    ultimately show ?thesis using s1 by blast
  qed
  have e: "\<not> is_running s' n \<and>
      (\<exists>s''. start_python_process h (Spawned p) n md a c e v cb s' = Inr (True, s'')) \<and>
      (\<exists>s''. start_npx_process h (Spawned p) n pk a c e cb s' = Inr (True, s'')) \<and>
      (get_node_executable h = Inr ''node'' \<longrightarrow>
         (\<exists>s''. start_node_process h (Spawned p) n sc a c e cb s' = Inr (True, s'')))" for n
    using a [of n] start_free [OF free, of h p n md a c e v cb pk sc] by blast
  show ?thesis
  proof (intro exI [of _ s'] conjI)
    show "stop_all t env s = Inr s'" by (rule s')
    show "processes s' = []" by (rule p)
    show "get_status s' = []" by (rule b)
    show "processes s = [] \<longrightarrow> s' = s" by (rule c)
    show "\<forall>n q ps. processes s = (n, q) # ps \<longrightarrow>
              (\<exists>s1. stop n t (env n) s = Inr (True, s1) \<and> processes s1 = ps \<and>
                    stop_all t env s1 = Inr s')"
      using d by blast
    show "\<forall>n \<in> set (dict_keys (processes s)).
              \<not> is_running s' n \<and>
              (\<exists>s''. start_python_process h (Spawned p) n md a c e v cb s' = Inr (True, s'')) \<and>
              (\<exists>s''. start_npx_process h (Spawned p) n pk a c e cb s' = Inr (True, s'')) \<and>
              (get_node_executable h = Inr ''node'' \<longrightarrow>
                 (\<exists>s''. start_node_process h (Spawned p) n sc a c e cb s' = Inr (True, s'')))"
      using e by blast
  qed
qed

text \<open>The theorem at work: \<^verbatim>\<open>a\<close> and \<^verbatim>\<open>b\<close> are started, \<^verbatim>\<open>stop_all(5.0)\<close>
  empties the status, and both names can be started again.\<close>

theorem stop_all_empties_registry_witness:
  "reachable two_started \<and> dict_keys (processes two_started) = [''a'', ''b''] \<and>
   (\<exists>s'. stop_all 5 (\<lambda>_. graceful) two_started = Inr s' \<and> get_status s' = [] \<and>
         \<not> is_running s' ''a'' \<and> \<not> is_running s' ''b'' \<and>
         (\<exists>s''. start_npx_process host0 (Spawned 13) ''a'' ''mrmd-sync'' None None None None s' =
                  Inr (True, s'')) \<and>
         (\<exists>s''. start_python_process host0 (Spawned 13) ''b'' ''mrmd_python.cli'' None None None
                  None None s' = Inr (True, s'')))"
proof -
  obtain s' where s': "stop_all 5 (\<lambda>_. graceful) two_started = Inr s'" "get_status s' = []"
    and all: "\<forall>n \<in> set (dict_keys (processes two_started)).
       \<not> is_running s' n \<and>
       (\<exists>s''. start_python_process host0 (Spawned 13) n ''mrmd_python.cli'' None None None
                None None s' = Inr (True, s'')) \<and>
       (\<exists>s''. start_npx_process host0 (Spawned 13) n ''mrmd-sync'' None None None None s' =
                Inr (True, s''))"
    using stop_all_empties_registry [OF reachable_two_started, of 5 "\<lambda>_. graceful" host0 13
        "''mrmd_python.cli''" None None None None None "''mrmd-sync''"]
    by blast
  have "\<not> is_running s' ''a'' \<and> \<not> is_running s' ''b'' \<and>
         (\<exists>s''. start_npx_process host0 (Spawned 13) ''a'' ''mrmd-sync'' None None None None s' =
                  Inr (True, s'')) \<and>
         (\<exists>s''. start_python_process host0 (Spawned 13) ''b'' ''mrmd_python.cli'' None None None
                  None None s' = Inr (True, s''))"
    using all by (simp add: two_started_keys)
  then show ?thesis
    using s' reachable_two_started two_started_keys by blast
qed

section \<open>Exceptions that reach the caller\<close>

text \<open>
  C9: no start method and no stop is to raise.  \<^verbatim>\<open>start_node_process\<close> does:
  \<^verbatim>\<open>get_node_executable\<close> catches \<^verbatim>\<open>TimeoutExpired\<close> and \<^verbatim>\<open>FileNotFoundError\<close>
  around its probe and \<^verbatim>\<open>start_node_process\<close> catches \<^verbatim>\<open>RuntimeError\<close>, so a
  \<^verbatim>\<open>PermissionError\<close> of the probe reaches the caller, with nothing logged.  And
  \<^verbatim>\<open>stop\<close> does: when the child has exited and a second stop of the same name has run
  while the first was suspended in its wait, the last \<^verbatim>\<open>del self._processes[name]\<close>
  of the first raises \<^verbatim>\<open>KeyError\<close>.  (The failures that the claim names are handled as
  it says: \<open>start_collision\<close>, \<open>start_node_not_found\<close> with \<open>node_not_found_cases\<close>,
  \<open>start_spawn_failed\<close>, \<open>stop_vanished\<close>; \<^verbatim>\<open>start_python_process\<close> and
  \<^verbatim>\<open>start_npx_process\<close> never raise, nor do a stop and a \<^verbatim>\<open>stop_all\<close> during which
  nothing else runs: \<open>start_python_process_Inr\<close>, \<open>start_npx_process_Inr\<close>,
  \<open>stop_Inr\<close>, \<open>stop_all_Inr\<close>.)
\<close>

theorem start_and_stop_can_raise:
  "start_node_process denied (Spawned 8) ''sync'' [''sync.js''] None None None None init =
     Inl PermissionError \<and>
   stop_interleaved ''sync'' 5 graceful overlapping_stop sync_started =
     Inl (KeyError ''sync'')"
  by (simp add: denied_def get_node_executable_def node_fallback_def subprocess_run_def
      sync_started_eq eval_defs eval_more)

end
